theory Spec2Isabelle
  imports Complex_Main
begin

section \<open>The skybox preview of RSBP.py\<close>

text \<open>
  A shallow embedding of the 3D preview of \<^verbatim>\<open>src/RSBP.py\<close>: the class
  \<^verbatim>\<open>SkyboxPreview\<close> (texture dictionary, orbit camera, immediate-mode drawing) and
  the method \<^verbatim>\<open>SkyboxGenerator.updateMode\<close>.

  Conventions of the model:
  \<^item> In the drawing code Python floats are read as exact reals (\<^typ>\<open>real\<close>), and
    \<^verbatim>\<open>math.sqrt\<close>, \<^verbatim>\<open>math.asin\<close> and \<^verbatim>\<open>math.atan2\<close> as the mathematical functions.
    Where rounding, underflow or overflow decide a property, \<^verbatim>\<open>cubeToSphereUV\<close> is read
    in binary64 arithmetic instead (\<open>cubeToSphereUV_double\<close>).
  \<^item> A Python exception is a value \<open>Inl e\<close> of the result type.
  \<^item> A 3D point (a Python list of three floats) is a triple.
  \<^item> The OpenGL calls made while drawing are recorded as a list of commands, in the order
    in which they are issued; the calls that manage texture objects act on an explicit
    record of the driver's texture names.
\<close>

subsection \<open>Data\<close>

datatype py_error = ZeroDivisionError | ValueError

type_synonym vec3 = "real \<times> real \<times> real"

type_synonym uv = "real \<times> real"

text \<open>\<^verbatim>\<open>FACE_NAMES = ['ft', 'bk', 'lf', 'rt', 'up', 'dn']\<close> (line 14).\<close>

definition FACE_NAMES :: "string list" where
  "FACE_NAMES = [''ft'', ''bk'', ''lf'', ''rt'', ''up'', ''dn'']"

text \<open>A PIL image, as far as \<^verbatim>\<open>loadTexture\<close> looks at it: its \<^verbatim>\<open>size\<close>.\<close>

record pil_image =
  im_width :: nat
  im_height :: nat

subsection \<open>OpenGL\<close>

datatype gl_cap = GL_TEXTURE_2D

datatype gl_winding = GL_CW | GL_CCW

datatype gl_prim = GL_QUADS | GL_TRIANGLE_STRIP

text \<open>The draw calls of \<^verbatim>\<open>drawSkybox\<close> and of the two face painters.\<close>

datatype gl_cmd =
    Enable gl_cap
  | FrontFace gl_winding
  | BindTexture nat
  | Begin gl_prim
  | TexCoord2f real real
  | Vertex3f vec3
  | End

text \<open>
  The texture objects of the GL context: the names in use (generated and not yet deleted),
  the name bound to \<^verbatim>\<open>GL_TEXTURE_2D\<close>, and the dimensions of the image uploaded to each
  name. OpenGL promises of \<^verbatim>\<open>glGenTextures\<close> only that the name it returns is not zero
  and not in use; the model returns the successor of the largest name in use, and the
  proofs below rely on nothing but that promise (\<open>glGenTextures_fresh\<close>).
\<close>

record gl_context =
  gl_names :: "nat list"
  gl_bound :: nat
  gl_images :: "nat \<rightharpoonup> nat \<times> nat"

definition gl_init :: gl_context where
  "gl_init = \<lparr>gl_names = [], gl_bound = 0, gl_images = Map.empty\<rparr>"

definition glGenTextures :: "gl_context \<Rightarrow> nat \<times> gl_context" where
  "glGenTextures c =
     (let t = Suc (fold max (gl_names c) 0)
      in (t, c\<lparr>gl_names := gl_names c @ [t]\<rparr>))"

definition glDeleteTextures :: "nat list \<Rightarrow> gl_context \<Rightarrow> gl_context" where
  "glDeleteTextures ts c =
     c\<lparr>gl_names := filter (\<lambda>n. n \<notin> set ts) (gl_names c),
       gl_bound := (if gl_bound c \<in> set ts then 0 else gl_bound c),
       gl_images := (\<lambda>n. if n \<in> set ts then None else gl_images c n)\<rparr>"

definition glBindTexture :: "nat \<Rightarrow> gl_context \<Rightarrow> gl_context" where
  "glBindTexture t c = c\<lparr>gl_bound := t\<rparr>"

definition glTexImage2D :: "nat \<Rightarrow> nat \<Rightarrow> gl_context \<Rightarrow> gl_context" where
  "glTexImage2D w h c = c\<lparr>gl_images := (gl_images c)(gl_bound c \<mapsto> (w, h))\<rparr>"

subsection \<open>The widget state\<close>

text \<open>
  \<^verbatim>\<open>SkyboxPreview.__init__\<close> (lines 25-32). \<^verbatim>\<open>textures\<close> is a dictionary from face
  names to texture names; its keys are strings (the six face names, and \<^verbatim>\<open>'stretch'\<close>
  in single-image mode). The camera angles are Python ints: they start as \<open>20\<close> and
  \<open>-30\<close> and only integer pixel differences are added to them.
\<close>

record SkyboxPreview =
  textures :: "string \<rightharpoonup> nat"
  rot_x :: int
  rot_y :: int
  last_pos :: "(int \<times> int) option"
  use_spherical_uv :: bool
  subdivide :: nat
  gl :: gl_context

definition SkyboxPreview_init :: SkyboxPreview where
  "SkyboxPreview_init =
     \<lparr>textures = Map.empty, rot_x = 20, rot_y = - 30, last_pos = None,
      use_spherical_uv = False, subdivide = 20, gl = gl_init\<rparr>"

subsection \<open>The camera (lines 166-180)\<close>

text \<open>
  \<^verbatim>\<open>if self.last_pos:\<close> tests the truth value of the stored position. \<^verbatim>\<open>None\<close> is
  false; a \<^verbatim>\<open>QPoint\<close> is an object with \<^verbatim>\<open>__bool__\<close>, which PyQt5 defines as
  \<^verbatim>\<open>not isNull()\<close>: the point \<open>(0, 0)\<close> is false, every other point is true.
\<close>

fun truthy_pos :: "(int \<times> int) option \<Rightarrow> bool" where
  "truthy_pos None = False"
| "truthy_pos (Some p) = (p \<noteq> (0, 0))"

definition mousePressEvent :: "int \<times> int \<Rightarrow> SkyboxPreview \<Rightarrow> SkyboxPreview" where
  "mousePressEvent pos st = st\<lparr>last_pos := Some pos\<rparr>"

definition mouseMoveEvent :: "int \<times> int \<Rightarrow> SkyboxPreview \<Rightarrow> SkyboxPreview" where
  "mouseMoveEvent pos st =
     (if truthy_pos (last_pos st) then
        (let dx = fst pos - fst (the (last_pos st));
             dy = snd pos - snd (the (last_pos st));
             rx = rot_x st + dy;
             ry = rot_y st + dx
         in st\<lparr>rot_x := max (min rx 90) (- 90), rot_y := ry, last_pos := Some pos\<rparr>)
      else st)"

definition mouseReleaseEvent :: "SkyboxPreview \<Rightarrow> SkyboxPreview" where
  "mouseReleaseEvent st = st\<lparr>last_pos := None\<rparr>"

text \<open>Pointer events as the window system delivers them, and a run of the widget on them.\<close>

datatype pointer_event = Pressed "int \<times> int" | Moved "int \<times> int" | Released

fun handle :: "pointer_event \<Rightarrow> SkyboxPreview \<Rightarrow> SkyboxPreview" where
  "handle (Pressed p) st = mousePressEvent p st"
| "handle (Moved p) st = mouseMoveEvent p st"
| "handle Released st = mouseReleaseEvent st"

fun run :: "SkyboxPreview \<Rightarrow> pointer_event list \<Rightarrow> SkyboxPreview" where
  "run st [] = st"
| "run st (e # es) = run (handle e st) es"

subsection \<open>The texture cache (lines 150-164, 311-327)\<close>

text \<open>
  \<^verbatim>\<open>loadTexture\<close> reads the size of the converted image, deletes the texture the
  face has (if the dictionary has the key), generates a name, binds it, uploads the
  pixels and stores the name. There is no test of the size on this path, and OpenGL takes
  an image of width or height zero. The two \<^verbatim>\<open>glTexParameteri\<close> calls set filters and are
  left out; \<^verbatim>\<open>self.update()\<close> only schedules a repaint.
\<close>

definition loadTexture :: "string \<Rightarrow> pil_image \<Rightarrow> SkyboxPreview \<Rightarrow> SkyboxPreview" where
  "loadTexture face_name pil_image st =
     (let w = im_width pil_image;
          h = im_height pil_image;
          g1 = (case textures st face_name of
                  Some old \<Rightarrow> glDeleteTextures [old] (gl st)
                | None \<Rightarrow> gl st);
          (tex_id, g2) = glGenTextures g1;
          g3 = glTexImage2D w h (glBindTexture tex_id g2)
      in st\<lparr>textures := (textures st)(face_name \<mapsto> tex_id), gl := g3\<rparr>)"

text \<open>
  The part of \<^verbatim>\<open>SkyboxGenerator\<close> that \<^verbatim>\<open>updateMode\<close> touches: the radio button,
  the enabled flag of each face's row of widgets (the five widgets of a row are always set
  together), the enabled flag of the stretch row, and the preview widget.
\<close>

record SkyboxGenerator =
  radio_six :: bool
  face_inputs_enabled :: "string \<Rightarrow> bool"
  stretch_inputs_enabled :: bool
  preview :: SkyboxPreview

definition updateMode :: "SkyboxGenerator \<Rightarrow> SkyboxGenerator" where
  "updateMode g =
     (let six_mode = radio_six g
      in g\<lparr>face_inputs_enabled :=
             fold (\<lambda>face en. en(face := six_mode)) FACE_NAMES (face_inputs_enabled g),
           stretch_inputs_enabled := \<not> six_mode,
           preview := (preview g)\<lparr>textures := Map.empty, use_spherical_uv := \<not> six_mode\<rparr>\<rparr>)"

text \<open>\<^verbatim>\<open>initUI\<close> checks the six-image button and calls \<^verbatim>\<open>updateMode\<close> once.\<close>

definition SkyboxGenerator_init :: SkyboxGenerator where
  "SkyboxGenerator_init =
     updateMode \<lparr>radio_six = True, face_inputs_enabled = (\<lambda>_. True),
                 stretch_inputs_enabled = True, preview = SkyboxPreview_init\<rparr>"

subsection \<open>Geometry and UV mapping (lines 63-148)\<close>

text \<open>The vertex table and the face table of \<^verbatim>\<open>drawSkybox\<close>, with \<^verbatim>\<open>size = 1.0\<close>.
  The face table is a dictionary written as a literal; iterating it yields the entries in
  the order written, so it is an association list here.\<close>

definition vertices :: "vec3 list" where
  "vertices =
     [(- 1, - 1, 1), (1, - 1, 1), (1, 1, 1), (- 1, 1, 1),
      (- 1, - 1, - 1), (1, - 1, - 1), (1, 1, - 1), (- 1, 1, - 1)]"

definition faces :: "(string \<times> nat list \<times> uv list) list" where
  "faces =
     [(''ft'', [0, 1, 2, 3], [(0, 0), (1, 0), (1, 1), (0, 1)]),
      (''bk'', [5, 4, 7, 6], [(0, 0), (1, 0), (1, 1), (0, 1)]),
      (''rt'', [4, 0, 3, 7], [(0, 0), (1, 0), (1, 1), (0, 1)]),
      (''lf'', [1, 5, 6, 2], [(0, 0), (1, 0), (1, 1), (0, 1)]),
      (''up'', [3, 2, 6, 7], [(0, 0), (1, 0), (1, 1), (0, 1)]),
      (''dn'', [4, 5, 1, 0], [(0, 0), (1, 0), (1, 1), (0, 1)])]"

fun lerp3D :: "vec3 \<Rightarrow> vec3 \<Rightarrow> real \<Rightarrow> vec3" where
  "lerp3D (ax, ay, az) (bx, by, bz) t =
     (ax + (bx - ax) * t, ay + (by - ay) * t, az + (bz - az) * t)"

text \<open>\<^verbatim>\<open>math.atan2(y, x)\<close>: the angle of the point \<open>(x, y)\<close>, in \<open>(-\<pi>, \<pi>]\<close>. The reals
  have one zero, so the sign of a floating-point zero plays no part.\<close>

definition atan2 :: "real \<Rightarrow> real \<Rightarrow> real" where
  "atan2 y x =
     (if 0 < x then arctan (y / x)
      else if x < 0 then (if 0 \<le> y then arctan (y / x) + pi else arctan (y / x) - pi)
      else if 0 < y then pi / 2
      else if y < 0 then - (pi / 2)
      else 0)"

text \<open>
  \<^verbatim>\<open>cubeToSphereUV\<close> (lines 140-148). The division raises \<^verbatim>\<open>ZeroDivisionError\<close>
  when \<^verbatim>\<open>length\<close> is zero, and \<^verbatim>\<open>math.asin\<close> raises \<^verbatim>\<open>ValueError\<close> outside
  \<open>[-1, 1]\<close>; the source guards neither.
\<close>

definition cubeToSphereUV :: "vec3 \<Rightarrow> py_error + uv" where
  "cubeToSphereUV pos =
     (case pos of (x, y, z) \<Rightarrow>
        let len = sqrt (x * x + y * y + z * z)
        in if len = 0 then Inl ZeroDivisionError
           else
             let nx = x / len; ny = y / len; nz = z / len
             in if ny < - 1 \<or> 1 < ny then Inl ValueError
                else Inr (1 / 2 + atan2 nz nx / (2 * pi), 1 / 2 - arcsin ny / pi))"

text \<open>Commands issued one after the other until the first exception.\<close>

fun collect :: "(py_error + 'a list) list \<Rightarrow> py_error + 'a list" where
  "collect [] = Inr []"
| "collect (r # rs) =
     (case r of
        Inl e \<Rightarrow> Inl e
      | Inr xs \<Rightarrow> (case collect rs of Inl e \<Rightarrow> Inl e | Inr ys \<Rightarrow> Inr (xs @ ys)))"

text \<open>\<^verbatim>\<open>drawFaceFlat\<close> (lines 102-108).\<close>

definition texcoords :: "uv list" where
  "texcoords = [(0, 0), (1, 0), (1, 1), (0, 1)]"

definition drawFaceFlat :: "vec3 list \<Rightarrow> nat list \<Rightarrow> gl_cmd list" where
  "drawFaceFlat vs verts_idx =
     Begin GL_QUADS #
     concat (map (\<lambda>(vi, (u, v)). [TexCoord2f u v, Vertex3f (vs ! vi)])
                 (zip verts_idx texcoords)) @
     [End]"

text \<open>
  \<^verbatim>\<open>drawFaceSpherical\<close> (lines 110-134): \<open>strip_column\<close> is the body of the inner loop
  (over \<open>j\<close>), \<open>strip_row\<close> the body of the outer loop (over \<open>i\<close>). \<open>sub\<close> is
  \<^verbatim>\<open>self.subdivide\<close>. The loops do not run when \<open>sub = 0\<close>, so no division by
  \<open>sub = 0\<close> is ever evaluated.
\<close>

definition strip_column ::
  "nat \<Rightarrow> vec3 \<Rightarrow> vec3 \<Rightarrow> vec3 \<Rightarrow> vec3 \<Rightarrow> real \<Rightarrow> real \<Rightarrow> nat \<Rightarrow> py_error + gl_cmd list" where
  "strip_column sub v0 v1 v2 v3 t0 t1 j =
     (let s = real j / real sub;
          pA = lerp3D (lerp3D v0 v1 s) (lerp3D v3 v2 s) t0;
          pB = lerp3D (lerp3D v0 v1 s) (lerp3D v3 v2 s) t1
      in case cubeToSphereUV pA of
           Inl e \<Rightarrow> Inl e
         | Inr (uA, vA) \<Rightarrow>
             (case cubeToSphereUV pB of
                Inl e \<Rightarrow> Inl e
              | Inr (uB, vB) \<Rightarrow>
                  Inr [TexCoord2f uA vA, Vertex3f pA, TexCoord2f uB vB, Vertex3f pB]))"

definition strip_row ::
  "nat \<Rightarrow> vec3 \<Rightarrow> vec3 \<Rightarrow> vec3 \<Rightarrow> vec3 \<Rightarrow> nat \<Rightarrow> py_error + gl_cmd list" where
  "strip_row sub v0 v1 v2 v3 i =
     (let t0 = real i / real sub;
          t1 = (real i + 1) / real sub
      in case collect (map (strip_column sub v0 v1 v2 v3 t0 t1) [0..<sub + 1]) of
           Inl e \<Rightarrow> Inl e
         | Inr cs \<Rightarrow> Inr (Begin GL_TRIANGLE_STRIP # cs @ [End]))"

definition drawFaceSpherical :: "nat \<Rightarrow> vec3 list \<Rightarrow> nat list \<Rightarrow> py_error + gl_cmd list" where
  "drawFaceSpherical sub vs verts_idx =
     (let v0 = vs ! (verts_idx ! 0);
          v1 = vs ! (verts_idx ! 1);
          v2 = vs ! (verts_idx ! 2);
          v3 = vs ! (verts_idx ! 3)
      in collect (map (strip_row sub v0 v1 v2 v3) [0..<sub]))"



subsection \<open>Binary64 arithmetic\<close>

text \<open>
  The floats of \<^verbatim>\<open>cubeToSphereUV\<close> once more, as the interpreter computes them: IEEE 754
  binary64 values (a finite real, the negative zero, the two infinities, not-a-number),
  every operation rounded to nearest, ties to even. \<open>Fin 0\<close> is the positive zero.
\<close>

datatype pyfloat = Fin real | NegZero | PInf | NInf | NaN

fun fval :: "pyfloat \<Rightarrow> real" where
  "fval (Fin r) = r"
| "fval _ = 0"

fun is_finite :: "pyfloat \<Rightarrow> bool" where
  "is_finite (Fin r) = True"
| "is_finite NegZero = True"
| "is_finite _ = False"

fun is_zero :: "pyfloat \<Rightarrow> bool" where
  "is_zero (Fin r) = (r = 0)"
| "is_zero NegZero = True"
| "is_zero _ = False"

fun is_neg :: "pyfloat \<Rightarrow> bool" where
  "is_neg (Fin r) = (r < 0)"
| "is_neg NegZero = True"
| "is_neg NInf = True"
| "is_neg _ = False"

fun fneg :: "pyfloat \<Rightarrow> pyfloat" where
  "fneg (Fin r) = (if r = 0 then NegZero else Fin (- r))"
| "fneg NegZero = Fin 0"
| "fneg PInf = NInf"
| "fneg NInf = PInf"
| "fneg NaN = NaN"

text \<open>
  Rounding to nearest with 53 bits of precision. \<open>binade x\<close> is the exponent of \<open>x\<close>,
  not below \<open>-1022\<close> (below it the values are subnormal and keep the spacing
  \<open>2^-1074\<close>); \<open>quantum x\<close> is the spacing of the binary64 values around \<open>x\<close>;
  \<open>rne\<close> rounds a real to the nearest integer, a tie to the even one. A result of
  magnitude \<open>2^1024\<close> or more is an infinity. The first argument of \<open>to_double\<close> is the
  sign that a zero result gets.
\<close>

definition rne :: "real \<Rightarrow> int" where
  "rne x =
     (let f = \<lfloor>x\<rfloor>; d = x - of_int f
      in if d < 1 / 2 then f
         else if 1 / 2 < d then f + 1
         else if even f then f else f + 1)"

definition binade :: "real \<Rightarrow> int" where
  "binade x = max \<lfloor>log 2 \<bar>x\<bar>\<rfloor> (- 1022)"

definition quantum :: "real \<Rightarrow> real" where
  "quantum x = 2 powr (of_int (binade x) - 52)"

definition round_nearest :: "real \<Rightarrow> real" where
  "round_nearest x = (if x = 0 then 0 else of_int (rne (x / quantum x)) * quantum x)"

definition to_double :: "bool \<Rightarrow> real \<Rightarrow> pyfloat" where
  "to_double neg x =
     (let r = round_nearest x
      in if 2 powr 1024 \<le> r then PInf
         else if r \<le> - (2 powr 1024) then NInf
         else if r = 0 \<and> neg then NegZero
         else Fin r)"

text \<open>
  The operators \<^verbatim>\<open>*\<close>, \<^verbatim>\<open>+\<close>, \<^verbatim>\<open>-\<close> and \<^verbatim>\<open>/\<close> on Python floats. Only the division
  raises: \<^verbatim>\<open>ZeroDivisionError\<close> when the divisor is a zero of either sign, whatever the
  dividend. Overflow gives an infinity without an exception.
\<close>

definition fmul :: "pyfloat \<Rightarrow> pyfloat \<Rightarrow> pyfloat" where
  "fmul a b =
     (if a = NaN \<or> b = NaN then NaN
      else if is_finite a \<and> is_finite b then
        to_double (is_neg a \<noteq> is_neg b) (fval a * fval b)
      else if is_zero a \<or> is_zero b then NaN
      else if is_neg a \<noteq> is_neg b then NInf
      else PInf)"

definition fadd :: "pyfloat \<Rightarrow> pyfloat \<Rightarrow> pyfloat" where
  "fadd a b =
     (if a = NaN \<or> b = NaN then NaN
      else if is_finite a \<and> is_finite b then
        (if fval a + fval b = 0 then (if is_neg a \<and> is_neg b then NegZero else Fin 0)
         else to_double (fval a + fval b < 0) (fval a + fval b))
      else if (a = PInf \<and> b = NInf) \<or> (a = NInf \<and> b = PInf) then NaN
      else if a = PInf \<or> b = PInf then PInf
      else NInf)"

definition fsub :: "pyfloat \<Rightarrow> pyfloat \<Rightarrow> pyfloat" where
  "fsub a b = fadd a (fneg b)"

definition fdiv :: "pyfloat \<Rightarrow> pyfloat \<Rightarrow> py_error + pyfloat" where
  "fdiv a b =
     (if is_zero b then Inl ZeroDivisionError
      else if a = NaN \<or> b = NaN then Inr NaN
      else if is_finite a \<and> is_finite b then
        Inr (to_double (is_neg a \<noteq> is_neg b) (fval a / fval b))
      else if \<not> is_finite a \<and> \<not> is_finite b then Inr NaN
      else if \<not> is_finite a then Inr (if is_neg a \<noteq> is_neg b then NInf else PInf)
      else Inr (if is_neg a \<noteq> is_neg b then NegZero else Fin 0))"

text \<open>
  \<^verbatim>\<open>math.pi\<close>, \<^verbatim>\<open>math.sqrt\<close>, \<^verbatim>\<open>math.asin\<close> and \<^verbatim>\<open>math.atan2\<close>. The square root is
  correctly rounded. The C library's \<^verbatim>\<open>asin\<close> and \<^verbatim>\<open>atan2\<close> are taken as correctly
  rounded too; they are accurate to the last bit or so, and nothing proved below depends
  on their values except at \<open>0\<close>, where they are exact. \<^verbatim>\<open>math.sqrt\<close> and \<^verbatim>\<open>math.asin\<close>
  raise \<^verbatim>\<open>ValueError\<close> outside their domain; \<^verbatim>\<open>math.atan2\<close> never raises and has the
  special cases of C99 for zeros and infinities.
\<close>

definition math_pi :: pyfloat where
  "math_pi = to_double False pi"

fun math_sqrt :: "pyfloat \<Rightarrow> py_error + pyfloat" where
  "math_sqrt (Fin x) = (if x < 0 then Inl ValueError else Inr (to_double False (sqrt x)))"
| "math_sqrt NegZero = Inr NegZero"
| "math_sqrt PInf = Inr PInf"
| "math_sqrt NInf = Inl ValueError"
| "math_sqrt NaN = Inr NaN"

fun math_asin :: "pyfloat \<Rightarrow> py_error + pyfloat" where
  "math_asin (Fin x) =
     (if x < - 1 \<or> 1 < x then Inl ValueError else Inr (to_double (x < 0) (arcsin x)))"
| "math_asin NegZero = Inr NegZero"
| "math_asin PInf = Inl ValueError"
| "math_asin NInf = Inl ValueError"
| "math_asin NaN = Inr NaN"

definition copysign :: "pyfloat \<Rightarrow> pyfloat \<Rightarrow> pyfloat" where
  "copysign a s = (if is_neg a = is_neg s then a else fneg a)"

definition math_atan2 :: "pyfloat \<Rightarrow> pyfloat \<Rightarrow> pyfloat" where
  "math_atan2 y x =
     (if x = NaN \<or> y = NaN then NaN
      else if y = PInf \<or> y = NInf then
        (if x = PInf then copysign (fmul (Fin (1 / 4)) math_pi) y
         else if x = NInf then copysign (fmul (Fin (3 / 4)) math_pi) y
         else copysign (fmul (Fin (1 / 2)) math_pi) y)
      else if x = PInf \<or> x = NInf \<or> is_zero y then
        (if is_neg x then copysign math_pi y else copysign (Fin 0) y)
      else to_double (fval y < 0) (atan2 (fval y) (fval x)))"

text \<open>
  \<^verbatim>\<open>cubeToSphereUV\<close> in binary64: \<open>unit_vector\<close> is lines 143-144 (the length and the
  three quotients, left to right), the rest lines 146-148.
\<close>

definition unit_vector ::
  "pyfloat \<times> pyfloat \<times> pyfloat \<Rightarrow> py_error + pyfloat \<times> pyfloat \<times> pyfloat" where
  "unit_vector pos =
     (case pos of (x, y, z) \<Rightarrow>
        case math_sqrt (fadd (fadd (fmul x x) (fmul y y)) (fmul z z)) of
          Inl e \<Rightarrow> Inl e
        | Inr len \<Rightarrow>
            (case fdiv x len of
               Inl e \<Rightarrow> Inl e
             | Inr nx \<Rightarrow>
                 (case fdiv y len of
                    Inl e \<Rightarrow> Inl e
                  | Inr ny \<Rightarrow>
                      (case fdiv z len of
                         Inl e \<Rightarrow> Inl e
                       | Inr nz \<Rightarrow> Inr (nx, ny, nz)))))"

definition cubeToSphereUV_double ::
  "pyfloat \<times> pyfloat \<times> pyfloat \<Rightarrow> py_error + pyfloat \<times> pyfloat" where
  "cubeToSphereUV_double pos =
     (case unit_vector pos of
        Inl e \<Rightarrow> Inl e
      | Inr (nx, ny, nz) \<Rightarrow>
          (case fdiv (math_atan2 nz nx) (fmul (Fin 2) math_pi) of
             Inl e \<Rightarrow> Inl e
           | Inr q \<Rightarrow>
               let u = fadd (Fin (1 / 2)) q
               in (case math_asin ny of
                     Inl e \<Rightarrow> Inl e
                   | Inr s \<Rightarrow>
                       (case fdiv s math_pi of
                          Inl e \<Rightarrow> Inl e
                        | Inr r \<Rightarrow> Inr (u, fsub (Fin (1 / 2)) r)))))"

subsection \<open>Reading a command list\<close>

text \<open>The texture names bound, in order.\<close>

fun binds :: "gl_cmd list \<Rightarrow> nat list" where
  "binds [] = []"
| "binds (BindTexture t # cs) = t # binds cs"
| "binds (_ # cs) = binds cs"

text \<open>
  The vertices drawn, each with the texture coordinate current when it is issued
  (\<^verbatim>\<open>glTexCoord2f\<close> sets the coordinate for the vertices that follow).
\<close>

fun textured_vertices :: "uv \<Rightarrow> gl_cmd list \<Rightarrow> (uv \<times> vec3) list" where
  "textured_vertices cur [] = []"
| "textured_vertices cur (TexCoord2f u v # cs) = textured_vertices (u, v) cs"
| "textured_vertices cur (Vertex3f p # cs) = (cur, p) # textured_vertices cur cs"
| "textured_vertices cur (_ # cs) = textured_vertices cur cs"

text \<open>
  The primitives drawn: each \<^verbatim>\<open>glBegin\<close> ... \<^verbatim>\<open>glEnd\<close> block with its mode and its
  vertices. The first argument is the block being read, if any.
\<close>

fun prims :: "(gl_prim \<times> vec3 list) option \<Rightarrow> gl_cmd list \<Rightarrow> (gl_prim \<times> vec3 list) list" where
  "prims cur [] = []"
| "prims cur (Begin p # cs) = prims (Some (p, [])) cs"
| "prims (Some (p, vs)) (Vertex3f v # cs) = prims (Some (p, vs @ [v])) cs"
| "prims (Some (p, vs)) (End # cs) = (p, vs) # prims None cs"
| "prims cur (_ # cs) = prims cur cs"

subsection \<open>Auxiliary notions for the texture cache\<close>

text \<open>
  The GL context of \<^verbatim>\<open>loadTexture\<close> after lines 156-157, that is, once the texture the
  face had (if any) is deleted and before the new name is generated.
\<close>

definition released :: "string \<Rightarrow> SkyboxPreview \<Rightarrow> gl_context" where
  "released f st =
     (case textures st f of Some old \<Rightarrow> glDeleteTextures [old] (gl st) | None \<Rightarrow> gl st)"

text \<open>A sequence of uploads, as the buttons of the form trigger them one after the other.\<close>

definition loads :: "(string \<times> pil_image) list \<Rightarrow> SkyboxPreview \<Rightarrow> SkyboxPreview" where
  "loads ops st = fold (\<lambda>(f, img). loadTexture f img) ops st"

text \<open>
  The dictionary and the driver agree: the names in use are exactly the names stored in
  the dictionary, each in use once, and no two keys share a name.
\<close>

definition cache_ok :: "SkyboxPreview \<Rightarrow> bool" where
  "cache_ok st \<longleftrightarrow>
     distinct (gl_names (gl st)) \<and> set (gl_names (gl st)) = ran (textures st) \<and>
     inj_on (textures st) (dom (textures st))"

text \<open>The form after its start, with one 512 x 512 image loaded for the front face.\<close>

definition front_loaded :: SkyboxGenerator where
  "front_loaded =
     SkyboxGenerator_init
       \<lparr>preview := loadTexture ''ft'' \<lparr>im_width = 512, im_height = 512\<rparr>
                    (preview SkyboxGenerator_init)\<rparr>"

subsection \<open>Auxiliary notions for the drawing\<close>

text \<open>The vertices of a command list, in order.\<close>

fun verts :: "gl_cmd list \<Rightarrow> vec3 list" where
  "verts [] = []"
| "verts (Vertex3f p # cs) = p # verts cs"
| "verts (_ # cs) = verts cs"

text \<open>A command list that only sets texture coordinates and issues vertices.\<close>

fun strip_body :: "gl_cmd list \<Rightarrow> bool" where
  "strip_body [] = True"
| "strip_body (TexCoord2f u v # cs) = strip_body cs"
| "strip_body (Vertex3f p # cs) = strip_body cs"
| "strip_body (_ # cs) = False"

text \<open>
  The point of lines 124-125: the quad's corners interpolated along \<open>s\<close> on the edges
  \<open>v0 v1\<close> and \<open>v3 v2\<close>, and then along \<open>t\<close> between the two.
\<close>

definition grid_point :: "vec3 \<Rightarrow> vec3 \<Rightarrow> vec3 \<Rightarrow> vec3 \<Rightarrow> real \<Rightarrow> real \<Rightarrow> vec3" where
  "grid_point v0 v1 v2 v3 s t = lerp3D (lerp3D v0 v1 s) (lerp3D v3 v2 s) t"

text \<open>The same for a face given by its four indices into the vertex table
  (lines 112-115).\<close>

definition face_point :: "nat list \<Rightarrow> real \<Rightarrow> real \<Rightarrow> vec3" where
  "face_point idx s t =
     grid_point (vertices ! (idx ! 0)) (vertices ! (idx ! 1))
                (vertices ! (idx ! 2)) (vertices ! (idx ! 3)) s t"

text \<open>A point with a coordinate equal to \<open>1\<close> or \<open>-1\<close>: it lies on a plane of the cube.\<close>

definition on_cube :: "vec3 \<Rightarrow> bool" where
  "on_cube p = (case p of (x, y, z) \<Rightarrow> \<bar>x\<bar> = 1 \<or> \<bar>y\<bar> = 1 \<or> \<bar>z\<bar> = 1)"


subsection \<open>Auxiliary notions for binary64\<close>

text \<open>
  A real in the normal range of binary64, kept one binade away from overflow; the value
  of \<^verbatim>\<open>x*x + y*y + z*z\<close> as the floats compute it while every sum and product is zero
  or normal; and the condition that every intermediate result of lines 143-144 is zero or
  normal, the length being normal: nothing underflows, is subnormal or overflows.
\<close>

definition normal :: "real \<Rightarrow> bool" where
  "normal r \<longleftrightarrow> 2 powr (- 1022) \<le> \<bar>r\<bar> \<and> \<bar>r\<bar> < 2 powr 1023"

definition zero_or_normal :: "real \<Rightarrow> bool" where
  "zero_or_normal r \<longleftrightarrow> r = 0 \<or> normal r"

definition sq_sum :: "real \<Rightarrow> real \<Rightarrow> real \<Rightarrow> real" where
  "sq_sum x y z =
     round_nearest (round_nearest (round_nearest (x * x) + round_nearest (y * y))
                    + round_nearest (z * z))"

definition in_normal_range :: "real \<Rightarrow> real \<Rightarrow> real \<Rightarrow> bool" where
  "in_normal_range x y z \<longleftrightarrow>
     zero_or_normal (x * x) \<and> zero_or_normal (y * y) \<and> zero_or_normal (z * z) \<and>
     zero_or_normal (round_nearest (x * x) + round_nearest (y * y)) \<and>
     zero_or_normal (round_nearest (round_nearest (x * x) + round_nearest (y * y))
                     + round_nearest (z * z)) \<and>
     normal (sqrt (sq_sum x y z)) \<and>
     zero_or_normal (x / round_nearest (sqrt (sq_sum x y z))) \<and>
     zero_or_normal (y / round_nearest (sqrt (sq_sum x y z))) \<and>
     zero_or_normal (z / round_nearest (sqrt (sq_sum x y z)))"

text \<open>
  The preview after: an image loaded for the front face, the stretch button clicked, the
  six-image button clicked again, and the front image loaded once more (as the rotate and
  flip buttons do).
\<close>

definition reloaded_after_switch :: SkyboxPreview where
  "reloaded_after_switch =
     loadTexture ''ft'' \<lparr>im_width = 512, im_height = 512\<rparr>
       (preview (updateMode ((updateMode (front_loaded\<lparr>radio_six := False\<rparr>))
                               \<lparr>radio_six := True\<rparr>)))"

section \<open>Properties\<close>

subsection \<open>The camera\<close>

lemma handle_pitch:
  "- 90 \<le> rot_x st \<Longrightarrow> rot_x st \<le> 90 \<Longrightarrow>
   - 90 \<le> rot_x (handle e st) \<and> rot_x (handle e st) \<le> 90"
  by (cases e)
    (simp_all add: mouseMoveEvent_def mousePressEvent_def mouseReleaseEvent_def Let_def)

lemma run_pitch:
  "- 90 \<le> rot_x st \<Longrightarrow> rot_x st \<le> 90 \<Longrightarrow>
   - 90 \<le> rot_x (run st es) \<and> rot_x (run st es) \<le> 90"
proof (induction es arbitrary: st)
  case Nil
  then show ?case by simp
next
  case (Cons e es)
  from handle_pitch [OF Cons.prems] show ?case
    by (simp add: Cons.IH)
qed

text \<open>The pitch stays in \<open>[-90, 90]\<close> on every sequence of pointer events.\<close>

lemma camera_pitch_in_range:
  "- 90 \<le> rot_x (run SkyboxPreview_init es) \<and> rot_x (run SkyboxPreview_init es) \<le> 90"
  by (rule run_pitch) (simp_all add: SkyboxPreview_init_def)

text \<open>
  While no stored position is the point \<open>(0, 0)\<close>, the moves of a drag add up: the yaw
  is the yaw at the press plus the distance from the press to the last position.
\<close>

lemma run_moves_yaw:
  "last_pos st = Some a \<Longrightarrow> a \<noteq> (0, 0) \<Longrightarrow> (0, 0) \<notin> set (butlast ps) \<Longrightarrow>
   rot_y (run st (map Moved ps)) = rot_y st + (fst (last (a # ps)) - fst a)"
proof (induction ps arbitrary: st a)
  case Nil
  then show ?case by simp
next
  case (Cons p ps)
  let ?st = "mouseMoveEvent p st"
  have st': "last_pos ?st = Some p" "rot_y ?st = rot_y st + (fst p - fst a)"
    using Cons.prems(1,2) by (simp_all add: mouseMoveEvent_def Let_def)
  show ?case
  proof (cases ps)
    case Nil
    then show ?thesis using st' by simp
  next
    case (Cons q qs)
    with Cons.prems(3) have "p \<noteq> (0, 0)" "(0, 0) \<notin> set (butlast ps)"
      by auto
    from Cons.IH [OF st'(1) this] st'(2) Cons show ?thesis
      by simp
  qed
qed

lemma drag_yaw:
  "a \<noteq> (0, 0) \<Longrightarrow> (0, 0) \<notin> set (butlast ps) \<Longrightarrow>
   rot_y (run SkyboxPreview_init (Pressed a # map Moved ps)) =
     - 30 + (fst (last (a # ps)) - fst a)"
  using run_moves_yaw [of "mousePressEvent a SkyboxPreview_init" a ps]
  by (simp add: mousePressEvent_def SkyboxPreview_init_def)

text \<open>
  Claim C5: from the initial camera (pitch 20, yaw -30), after any sequence of pointer
  moves while dragging the pitch lies in \<open>[-90, 90]\<close> and the yaw is the initial yaw plus
  the sum of the x-deltas, each measured from the previous sampled position.

  The pitch bound holds (\<open>camera_pitch_in_range\<close>) and so does the yaw sum while no
  sampled position is \<open>(0, 0)\<close> (\<open>drag_yaw\<close>). A drag whose press is at the widget's
  origin is different: the stored \<^verbatim>\<open>QPoint(0, 0)\<close> is false in \<^verbatim>\<open>if self.last_pos:\<close>,
  so the move is dropped. Pressing at \<open>(0, 0)\<close> and moving to \<open>(5, 3)\<close> leaves the
  yaw at \<open>-30\<close> and the pitch at \<open>20\<close>, where the deltas \<open>5\<close> and \<open>3\<close> should
  give \<open>-25\<close> and \<open>23\<close>; the anchor is not advanced either.
\<close>

theorem C5_drag_from_origin_is_dropped:
  "rot_y (run SkyboxPreview_init [Pressed (0, 0), Moved (5, 3)]) = - 30 \<and>
   rot_x (run SkyboxPreview_init [Pressed (0, 0), Moved (5, 3)]) = 20 \<and>
   last_pos (run SkyboxPreview_init [Pressed (0, 0), Moved (5, 3)]) = Some (0, 0)"
  by (simp add: mousePressEvent_def mouseMoveEvent_def SkyboxPreview_init_def)

subsection \<open>The texture cache\<close>

lemma fold_max_ge: "a \<le> fold max xs (a::nat)"
proof (induction xs arbitrary: a)
  case Nil
  show ?case by simp
next
  case (Cons x xs)
  have "a \<le> max x a" by simp
  also have "\<dots> \<le> fold max xs (max x a)" by (rule Cons.IH)
  finally show ?case by simp
qed

lemma fold_max_mem: "x \<in> set xs \<Longrightarrow> x \<le> fold max xs (a::nat)"
proof (induction xs arbitrary: a)
  case Nil
  then show ?case by simp
next
  case (Cons y ys)
  show ?case
  proof (cases "x = y")
    case True
    have "x \<le> max y a" using True by simp
    also have "\<dots> \<le> fold max ys (max y a)" by (rule fold_max_ge)
    finally show ?thesis by simp
  next
    case False
    with Cons.prems have "x \<in> set ys" by simp
    then show ?thesis by (simp add: Cons.IH)
  qed
qed

text \<open>What OpenGL promises of a generated name: it is not in use, and it is not zero.\<close>

lemma glGenTextures_fresh:
  "fst (glGenTextures c) \<notin> set (gl_names c)" "0 < fst (glGenTextures c)"
proof -
  show "fst (glGenTextures c) \<notin> set (gl_names c)"
  proof
    assume "fst (glGenTextures c) \<in> set (gl_names c)"
    then have "Suc (fold max (gl_names c) 0) \<le> fold max (gl_names c) 0"
      using fold_max_mem [of "Suc (fold max (gl_names c) 0)" "gl_names c" 0]
      by (simp add: glGenTextures_def Let_def)
    then show False by simp
  qed
  show "0 < fst (glGenTextures c)"
    by (simp add: glGenTextures_def Let_def)
qed

lemma released_names:
  "gl_names (released f st) =
     (case textures st f of
        Some old \<Rightarrow> filter (\<lambda>n. n \<noteq> old) (gl_names (gl st))
      | None \<Rightarrow> gl_names (gl st))"
  by (simp add: released_def glDeleteTextures_def split: option.splits)

lemma loadTexture_textures:
  "textures (loadTexture f img st) = (textures st)(f \<mapsto> fst (glGenTextures (released f st)))"
  by (simp add: loadTexture_def released_def Let_def split: prod.splits)

lemma loadTexture_names:
  "gl_names (gl (loadTexture f img st)) =
     gl_names (released f st) @ [fst (glGenTextures (released f st))]"
  by (simp add: loadTexture_def released_def Let_def glTexImage2D_def glBindTexture_def
      glGenTextures_def split: prod.splits)


lemma released_loadTexture:
  "gl_names (released f (loadTexture f img st)) = gl_names (released f st)"
proof -
  let ?t = "fst (glGenTextures (released f st))"
  have "gl_names (released f (loadTexture f img st)) =
        filter (\<lambda>n. n \<noteq> ?t) (gl_names (released f st) @ [?t])"
    by (simp add: released_def [of f "loadTexture f img st"] loadTexture_textures
        loadTexture_names glDeleteTextures_def)
  also have "\<dots> = gl_names (released f st)"
    using glGenTextures_fresh(1) [of "released f st"] by (auto simp: filter_id_conv)
  finally show ?thesis .
qed





text \<open>The agreement of dictionary and driver is kept by every upload.\<close>

lemma ran_remove_key:
  assumes "inj_on m (dom m)" and "m f = Some old"
  shows "ran (m(f := None)) = ran m - {old}"
proof (rule set_eqI)
  fix x
  show "x \<in> ran (m(f := None)) \<longleftrightarrow> x \<in> ran m - {old}"
  proof
    assume "x \<in> ran (m(f := None))"
    then obtain g where g: "g \<noteq> f" "m g = Some x"
      by (auto simp: ran_def split: if_splits)
    have "x \<noteq> old"
    proof
      assume "x = old"
      with g assms(2) have "m g = m f" by simp
      with assms(1) g(2) assms(2) have "g = f"
        by (auto dest!: inj_onD [of m "dom m" g f])
      with g(1) show False by simp
    qed
    with g(2) show "x \<in> ran m - {old}" by (auto simp: ran_def)
  next
    assume "x \<in> ran m - {old}"
    then obtain g where g: "m g = Some x" "x \<noteq> old" by (auto simp: ran_def)
    with assms(2) have "g \<noteq> f" by auto
    with g(1) show "x \<in> ran (m(f := None))" by (auto simp: ran_def)
  qed
qed

lemma ran_upd_key: "ran (m(f \<mapsto> t)) = insert t (ran (m(f := None)))"
  using ran_map_upd [of "m(f := None)" f t] by simp

lemma cache_ok_loadTexture:
  assumes "cache_ok st"
  shows "cache_ok (loadTexture f img st)"
proof -
  let ?t = "fst (glGenTextures (released f st))"
  let ?m = "textures st"
  let ?m' = "(textures st)(f := None)"
  from assms have d: "distinct (gl_names (gl st))" and r: "set (gl_names (gl st)) = ran ?m"
    and i: "inj_on ?m (dom ?m)"
    by (simp_all add: cache_ok_def)
  have names: "set (gl_names (released f st)) = ran ?m'"
  proof (cases "?m f")
    case None
    then have "?m' = ?m" by (simp add: fun_upd_idem)
    with None r show ?thesis by (simp add: released_names)
  next
    case (Some old)
    with r ran_remove_key [OF i Some] show ?thesis
      by (auto simp: released_names)
  qed
  have fresh: "?t \<notin> ran ?m'"
    using glGenTextures_fresh(1) [of "released f st"] names by simp
  have upd: "textures (loadTexture f img st) = ?m'(f \<mapsto> ?t)"
    by (simp add: loadTexture_textures)
  have 1: "distinct (gl_names (gl (loadTexture f img st)))"
    using d glGenTextures_fresh(1) [of "released f st"]
    by (simp add: loadTexture_names) (simp add: released_names split: option.splits)
  have 2: "set (gl_names (gl (loadTexture f img st))) = ran (textures (loadTexture f img st))"
    by (simp add: loadTexture_textures loadTexture_names names ran_upd_key)
  have i': "inj_on ?m' (dom ?m')"
  proof (rule inj_onI)
    fix a b
    assume "a \<in> dom ?m'" "b \<in> dom ?m'" "?m' a = ?m' b"
    then have "a \<in> dom ?m" "b \<in> dom ?m" "?m a = ?m b"
      by (auto split: if_splits)
    with i show "a = b" unfolding inj_on_def by blast
  qed
  have 3: "inj_on (textures (loadTexture f img st)) (dom (textures (loadTexture f img st)))"
    unfolding upd
  proof (rule inj_onI)
    fix a b
    assume a: "a \<in> dom (?m'(f \<mapsto> ?t))" and b: "b \<in> dom (?m'(f \<mapsto> ?t))"
      and eq: "(?m'(f \<mapsto> ?t)) a = (?m'(f \<mapsto> ?t)) b"
    show "a = b"
    proof (cases "a = f")
      case True
      show ?thesis
      proof (rule ccontr)
        assume "a \<noteq> b"
        with True eq have "?m' b = Some ?t" by (simp split: if_splits)
        then have "?t \<in> ran ?m'" by (rule ranI)
        with fresh show False by simp
      qed
    next
      case False
      show ?thesis
      proof (cases "b = f")
        case True
        with False eq have "?m' a = Some ?t" by (simp split: if_splits)
        then have "?t \<in> ran ?m'" by (rule ranI)
        with fresh show ?thesis by simp
      next
        case bf: False
        with False a b eq have "a \<in> dom ?m'" "b \<in> dom ?m'" "?m' a = ?m' b"
          by (auto split: if_splits)
        with i' show ?thesis unfolding inj_on_def by blast
      qed
    qed
  qed
  from 1 2 3 show ?thesis by (simp add: cache_ok_def)
qed

lemma cache_ok_init: "cache_ok SkyboxPreview_init"
  by (simp add: cache_ok_def SkyboxPreview_init_def gl_init_def)

lemma cache_ok_loads: "cache_ok st \<Longrightarrow> cache_ok (loads ops st)"
  unfolding loads_def
  by (induction ops arbitrary: st) (auto simp: cache_ok_loadTexture)

lemma reload_names:
  "gl_names (gl (loadTexture f img2 (loadTexture f img1 st))) =
     filter (\<lambda>n. n \<noteq> fst (glGenTextures (released f st))) (gl_names (gl (loadTexture f img1 st)))
       @ [fst (glGenTextures (released f (loadTexture f img1 st)))]"
proof -
  have "filter (\<lambda>n. n \<noteq> fst (glGenTextures (released f st))) (gl_names (gl (loadTexture f img1 st)))
        = gl_names (released f st)"
    using glGenTextures_fresh(1) [of "released f st"]
    by (auto simp: loadTexture_names filter_id_conv)
  then show ?thesis
    by (simp add: loadTexture_names [of f img2] released_loadTexture)
qed

text \<open>
  What \<^verbatim>\<open>loadTexture\<close> does by itself. For every state, face and pair of bitmaps: the
  first upload stores a name \<open>t1\<close>, the second a name \<open>t2\<close>; the names in use after the
  second upload are those in use after the first with \<open>t1\<close> removed and then \<open>t2\<close>
  added, \<open>t2\<close> being unused at that point; \<open>t2\<close> is in use exactly once, and the number
  of names in use has not grown. After any sequence of uploads from the initial state the
  names in use are exactly the names stored in the dictionary, one per key.
\<close>

lemma reload_keeps_one_texture:
  "\<exists>t1 t2.
     textures (loadTexture f img1 st) f = Some t1 \<and>
     textures (loadTexture f img2 (loadTexture f img1 st)) f = Some t2 \<and>
     gl_names (gl (loadTexture f img2 (loadTexture f img1 st))) =
       filter (\<lambda>n. n \<noteq> t1) (gl_names (gl (loadTexture f img1 st))) @ [t2] \<and>
     t2 \<notin> set (filter (\<lambda>n. n \<noteq> t1) (gl_names (gl (loadTexture f img1 st)))) \<and>
     count_list (gl_names (gl (loadTexture f img2 (loadTexture f img1 st)))) t2 = 1 \<and>
     length (gl_names (gl (loadTexture f img2 (loadTexture f img1 st)))) =
       length (gl_names (gl (loadTexture f img1 st))) \<and>
     cache_ok (loads ops SkyboxPreview_init)"
proof -
  let ?st1 = "loadTexture f img1 st"
  let ?st2 = "loadTexture f img2 ?st1"
  let ?t1 = "fst (glGenTextures (released f st))"
  let ?t2 = "fst (glGenTextures (released f ?st1))"
  have keep: "filter (\<lambda>n. n \<noteq> ?t1) (gl_names (gl ?st1)) = gl_names (released f st)"
    using glGenTextures_fresh(1) [of "released f st"]
    by (auto simp: loadTexture_names filter_id_conv)
  have fresh2: "?t2 \<notin> set (gl_names (released f st))"
    using glGenTextures_fresh(1) [of "released f ?st1"]
    by (simp add: released_loadTexture)
  have a: "textures ?st1 f = Some ?t1"
    by (simp add: loadTexture_textures)
  have b: "textures ?st2 f = Some ?t2"
    by (simp add: loadTexture_textures)
  have c: "gl_names (gl ?st2) = filter (\<lambda>n. n \<noteq> ?t1) (gl_names (gl ?st1)) @ [?t2]"
    by (rule reload_names)
  have d: "?t2 \<notin> set (filter (\<lambda>n. n \<noteq> ?t1) (gl_names (gl ?st1)))"
    using fresh2 by (simp add: keep)
  have e: "count_list (gl_names (gl ?st2)) ?t2 = 1"
    using fresh2 by (simp add: c keep count_list_0_iff [THEN iffD2])
  have g: "length (gl_names (gl ?st2)) = length (gl_names (gl ?st1))"
    by (simp add: c keep) (simp add: loadTexture_names)
  have h: "cache_ok (loads ops SkyboxPreview_init)"
    by (rule cache_ok_loads [OF cache_ok_init])
  from a b c d e g h show ?thesis by blast
qed

text \<open>
  Claim C6: calling \<^verbatim>\<open>loadTexture\<close> twice for a face leaves exactly one live texture
  keyed to it; the old one is released before the new one is created, so a face never has
  more than one live texture at any time and repeated edits do not accumulate resources.

  \<^verbatim>\<open>loadTexture\<close> keeps this (\<open>reload_keeps_one_texture\<close>), \<^verbatim>\<open>updateMode\<close> breaks it:
  it empties the dictionary (line 325) without deleting the textures, where \<^verbatim>\<open>loadTexture\<close>
  calls \<^verbatim>\<open>glDeleteTextures\<close> before it drops a name (lines 156-157). Load an image for the
  front face, click the stretch button, click the six-image button, rotate the front
  image: the names \<open>1\<close> and \<open>2\<close> are both in use, the dictionary holds only \<open>2\<close>, and
  nothing can release \<open>1\<close> any more.
\<close>

theorem C6_mode_switch_leaks_texture:
  "gl_names (gl reloaded_after_switch) = [1, 2] \<and>
   textures reloaded_after_switch = [''ft'' \<mapsto> 2] \<and>
   \<not> cache_ok reloaded_after_switch"
proof -
  have n: "gl_names (gl reloaded_after_switch) = [1, 2]"
    by (simp add: reloaded_after_switch_def front_loaded_def SkyboxGenerator_init_def
        updateMode_def SkyboxPreview_init_def gl_init_def loadTexture_def glGenTextures_def
        glTexImage2D_def glBindTexture_def Let_def)
  have t: "textures reloaded_after_switch = [''ft'' \<mapsto> 2]"
    by (simp add: reloaded_after_switch_def front_loaded_def SkyboxGenerator_init_def
        updateMode_def SkyboxPreview_init_def gl_init_def loadTexture_def glGenTextures_def
        glTexImage2D_def glBindTexture_def Let_def)
      (simp add: numeral_2_eq_2)
  have "\<not> cache_ok reloaded_after_switch"
    unfolding cache_ok_def n t by simp
  with n t show ?thesis by blast
qed

subsection \<open>The spherical UV mapping\<close>

text \<open>In exact arithmetic the origin is the only point where \<^verbatim>\<open>cubeToSphereUV\<close> raises,
  and scaling a point by a positive factor does not change the result. In binary64
  arithmetic neither holds in general: squares underflow and overflow, and rounding
  depends on the scale.\<close>

lemma cubeToSphereUV_origin: "cubeToSphereUV (0, 0, 0) = Inl ZeroDivisionError"
  by (simp add: cubeToSphereUV_def)

lemma sum_squares_zero_iff: "x * x + y * y + z * z = 0 \<longleftrightarrow> x = 0 \<and> y = 0 \<and> z = (0::real)"
proof
  assume h: "x * x + y * y + z * z = 0"
  have "0 \<le> x * x" "0 \<le> y * y" "0 \<le> z * z" by simp_all
  with h have "x * x = 0" "y * y = 0" "z * z = 0" by linarith+
  then show "x = 0 \<and> y = 0 \<and> z = 0" by simp
qed simp

lemma abs_le_length: "\<bar>y\<bar> \<le> sqrt (x * x + y * y + z * z)"
proof -
  have "\<bar>y\<bar> = sqrt (y * y)" by simp
  also have "\<dots> \<le> sqrt (x * x + y * y + z * z)"
    by (rule real_sqrt_le_mono) (simp add: add_nonneg_nonneg)
  finally show ?thesis .
qed

lemma cubeToSphereUV_nonzero:
  assumes "(x, y, z) \<noteq> (0, 0, 0)"
  shows "cubeToSphereUV (x, y, z) =
     Inr (1 / 2 + atan2 (z / sqrt (x * x + y * y + z * z)) (x / sqrt (x * x + y * y + z * z)) / (2 * pi),
          1 / 2 - arcsin (y / sqrt (x * x + y * y + z * z)) / pi)"
proof -
  let ?len = "sqrt (x * x + y * y + z * z)"
  from assms have "x * x + y * y + z * z \<noteq> 0" by (simp add: sum_squares_zero_iff)
  then have nz: "?len \<noteq> 0" by simp
  moreover have "0 \<le> ?len" by (simp add: add_nonneg_nonneg)
  ultimately have pos: "0 < ?len" by linarith
  have "\<bar>y\<bar> \<le> ?len" by (rule abs_le_length)
  then have "\<bar>y / ?len\<bar> \<le> 1" using pos by (simp add: divide_le_eq)
  then have "\<not> (y / ?len < - 1 \<or> 1 < y / ?len)" by linarith
  with nz show ?thesis by (simp add: cubeToSphereUV_def Let_def)
qed

lemma cubeToSphereUV_scale:
  assumes "0 < k"
  shows "cubeToSphereUV (k * x, k * y, k * z) = cubeToSphereUV (x, y, z)"
proof -
  let ?len = "sqrt (x * x + y * y + z * z)"
  have "k * x * (k * x) + k * y * (k * y) + k * z * (k * z) = k\<^sup>2 * (x * x + y * y + z * z)"
    by (simp add: power2_eq_square algebra_simps)
  then have len: "sqrt (k * x * (k * x) + k * y * (k * y) + k * z * (k * z)) = k * ?len"
    using assms by (simp add: real_sqrt_mult)
  have quot: "k * a / (k * ?len) = a / ?len" for a
    using assms by simp
  show ?thesis
    unfolding cubeToSphereUV_def case_prod_conv len Let_def quot
    using assms by simp
qed

subsection \<open>The points of a face\<close>

text \<open>Every point interpolated between the corners of a table face keeps the coordinate
  the four corners share.\<close>

lemma face_grid_on_cube:
  assumes "(name, idx, tc) \<in> set faces"
  shows "on_cube (grid_point (vertices ! (idx ! 0)) (vertices ! (idx ! 1))
                   (vertices ! (idx ! 2)) (vertices ! (idx ! 3)) s t)"
  using assms
  by (auto simp: faces_def vertices_def grid_point_def on_cube_def)


lemma on_cube_nonzero: "on_cube p \<Longrightarrow> p \<noteq> (0, 0, 0)"
  by (auto simp: on_cube_def)

lemma on_cube_uv: "on_cube p \<Longrightarrow> \<exists>u v. cubeToSphereUV p = Inr (u, v)"
  by (cases p) (auto simp: cubeToSphereUV_nonzero dest!: on_cube_nonzero)

lemma strip_column_face:
  assumes "(name, idx, tc) \<in> set faces"
  shows "\<exists>uA vA uB vB.
     strip_column sub (vertices ! (idx ! 0)) (vertices ! (idx ! 1))
                   (vertices ! (idx ! 2)) (vertices ! (idx ! 3)) t0 t1 j =
     Inr [TexCoord2f uA vA,
          Vertex3f (grid_point (vertices ! (idx ! 0)) (vertices ! (idx ! 1))
                   (vertices ! (idx ! 2)) (vertices ! (idx ! 3)) (real j / real sub) t0),
          TexCoord2f uB vB,
          Vertex3f (grid_point (vertices ! (idx ! 0)) (vertices ! (idx ! 1))
                   (vertices ! (idx ! 2)) (vertices ! (idx ! 3)) (real j / real sub) t1)]"
proof -
  let ?g = "grid_point (vertices ! (idx ! 0)) (vertices ! (idx ! 1))
                   (vertices ! (idx ! 2)) (vertices ! (idx ! 3)) (real j / real sub)"
  obtain uA vA where a: "cubeToSphereUV (?g t0) = Inr (uA, vA)"
    using on_cube_uv [OF face_grid_on_cube [OF assms]] by blast
  obtain uB vB where b: "cubeToSphereUV (?g t1) = Inr (uB, vB)"
    using on_cube_uv [OF face_grid_on_cube [OF assms]] by blast
  show ?thesis
    using a b by (simp add: strip_column_def Let_def grid_point_def)
qed

subsection \<open>The command lists of the painters\<close>

text \<open>The shape of what the two loops of \<^verbatim>\<open>drawFaceSpherical\<close> and the loop of
  \<^verbatim>\<open>drawSkybox\<close> issue, when no iteration raises.\<close>

lemma binds_append: "binds (xs @ ys) = binds xs @ binds ys"
  by (induction xs rule: binds.induct) simp_all

lemma collect_columns:
  assumes "\<forall>j \<in> set js. \<exists>a b a' b'.
             f j = Inr [TexCoord2f a b, Vertex3f (pA j), TexCoord2f a' b', Vertex3f (pB j)]"
  shows "\<exists>cs. collect (map f js) = Inr cs \<and> strip_body cs \<and> binds cs = [] \<and>
              verts cs = concat (map (\<lambda>j. [pA j, pB j]) js)"
  using assms
proof (induction js)
  case Nil
  show ?case by simp
next
  case (Cons j js)
  then obtain cs where cs: "collect (map f js) = Inr cs" "strip_body cs" "binds cs = []"
      "verts cs = concat (map (\<lambda>j. [pA j, pB j]) js)"
    by auto
  from Cons.prems obtain a b a' b' where
    "f j = Inr [TexCoord2f a b, Vertex3f (pA j), TexCoord2f a' b', Vertex3f (pB j)]"
    by auto
  with cs show ?case by simp
qed

lemma prims_strip_body:
  "strip_body cs \<Longrightarrow>
   prims (Some (m, vs)) (cs @ End # rest) = (m, vs @ verts cs) # prims None rest"
proof (induction cs arbitrary: vs)
  case Nil
  show ?case by simp
next
  case (Cons c cs)
  then show ?case by (cases c) simp_all
qed

lemma prims_row:
  "strip_body cs \<Longrightarrow>
   prims cur ((Begin m # cs @ [End]) @ rest) = (m, verts cs) # prims None rest"
  using prims_strip_body [of cs m "[]" rest] by simp

lemma collect_rows:
  assumes "\<forall>i \<in> set rows. \<exists>cs. f i = Inr (Begin m # cs @ [End]) \<and> strip_body cs \<and>
             binds cs = [] \<and> verts cs = g i"
  shows "\<exists>cmds. collect (map f rows) = Inr cmds \<and> binds cmds = [] \<and>
              (\<forall>cur. prims cur cmds = map (\<lambda>i. (m, g i)) rows)"
  using assms
proof (induction rows)
  case Nil
  show ?case by simp
next
  case (Cons i rows)
  then obtain cmds where cmds: "collect (map f rows) = Inr cmds" "binds cmds = []"
      "\<forall>cur. prims cur cmds = map (\<lambda>i. (m, g i)) rows"
    by auto
  from Cons.prems obtain cs where cs: "f i = Inr (Begin m # cs @ [End])" "strip_body cs"
      "binds cs = []" "verts cs = g i"
    by auto
  have "prims cur ((Begin m # cs @ [End]) @ cmds) = map (\<lambda>i. (m, g i)) (i # rows)" for cur
    using cs(2,4) cmds(3) by (simp only: prims_row) simp
  with cs(1,3) cmds(1,2) show ?case
    by (simp add: binds_append)
qed

lemma strip_row_face:
  assumes "(name, idx, tc) \<in> set faces"
  shows "\<exists>cs.
     strip_row sub (vertices ! (idx ! 0)) (vertices ! (idx ! 1))
                   (vertices ! (idx ! 2)) (vertices ! (idx ! 3)) i =
       Inr (Begin GL_TRIANGLE_STRIP # cs @ [End]) \<and>
     strip_body cs \<and> binds cs = [] \<and>
     verts cs = concat (map (\<lambda>j.
        [grid_point (vertices ! (idx ! 0)) (vertices ! (idx ! 1))
                    (vertices ! (idx ! 2)) (vertices ! (idx ! 3))
                    (real j / real sub) (real i / real sub),
         grid_point (vertices ! (idx ! 0)) (vertices ! (idx ! 1))
                    (vertices ! (idx ! 2)) (vertices ! (idx ! 3))
                    (real j / real sub) ((real i + 1) / real sub)]) [0..<sub + 1])"
proof -
  let ?f = "strip_column sub (vertices ! (idx ! 0)) (vertices ! (idx ! 1))
              (vertices ! (idx ! 2)) (vertices ! (idx ! 3)) (real i / real sub)
              ((real i + 1) / real sub)"
  have "\<forall>j \<in> set [0..<sub + 1]. \<exists>a b a' b'.
          ?f j = Inr [TexCoord2f a b,
            Vertex3f (grid_point (vertices ! (idx ! 0)) (vertices ! (idx ! 1))
                    (vertices ! (idx ! 2)) (vertices ! (idx ! 3))
                    (real j / real sub) (real i / real sub)),
            TexCoord2f a' b',
            Vertex3f (grid_point (vertices ! (idx ! 0)) (vertices ! (idx ! 1))
                    (vertices ! (idx ! 2)) (vertices ! (idx ! 3))
                    (real j / real sub) ((real i + 1) / real sub))]"
    using strip_column_face [OF assms] by blast
  from collect_columns [OF this] obtain cs where
    "collect (map ?f [0..<sub + 1]) = Inr cs" "strip_body cs" "binds cs = []"
    "verts cs = concat (map (\<lambda>j.
        [grid_point (vertices ! (idx ! 0)) (vertices ! (idx ! 1))
                    (vertices ! (idx ! 2)) (vertices ! (idx ! 3))
                    (real j / real sub) (real i / real sub),
         grid_point (vertices ! (idx ! 0)) (vertices ! (idx ! 1))
                    (vertices ! (idx ! 2)) (vertices ! (idx ! 3))
                    (real j / real sub) ((real i + 1) / real sub)]) [0..<sub + 1])"
    by blast
  then show ?thesis
    by (simp add: strip_row_def Let_def)
qed

lemma drawFaceSpherical_face:
  assumes "(name, idx, tc) \<in> set faces"
  shows "\<exists>cmds. drawFaceSpherical sub vertices idx = Inr cmds \<and> binds cmds = [] \<and>
     prims None cmds =
       map (\<lambda>i. (GL_TRIANGLE_STRIP, concat (map (\<lambda>j.
        [grid_point (vertices ! (idx ! 0)) (vertices ! (idx ! 1))
                    (vertices ! (idx ! 2)) (vertices ! (idx ! 3))
                    (real j / real sub) (real i / real sub),
         grid_point (vertices ! (idx ! 0)) (vertices ! (idx ! 1))
                    (vertices ! (idx ! 2)) (vertices ! (idx ! 3))
                    (real j / real sub) ((real i + 1) / real sub)]) [0..<sub + 1])))
        [0..<sub]"
proof -
  let ?f = "strip_row sub (vertices ! (idx ! 0)) (vertices ! (idx ! 1))
              (vertices ! (idx ! 2)) (vertices ! (idx ! 3))"
  let ?g = "\<lambda>i. concat (map (\<lambda>j.
        [grid_point (vertices ! (idx ! 0)) (vertices ! (idx ! 1))
                    (vertices ! (idx ! 2)) (vertices ! (idx ! 3))
                    (real j / real sub) (real i / real sub),
         grid_point (vertices ! (idx ! 0)) (vertices ! (idx ! 1))
                    (vertices ! (idx ! 2)) (vertices ! (idx ! 3))
                    (real j / real sub) ((real i + 1) / real sub)]) [0..<sub + 1])"
  have "\<forall>i \<in> set [0..<sub]. \<exists>cs. ?f i = Inr (Begin GL_TRIANGLE_STRIP # cs @ [End]) \<and>
          strip_body cs \<and> binds cs = [] \<and> verts cs = ?g i"
    using strip_row_face [OF assms] by blast
  from collect_rows [OF this] show ?thesis
    unfolding drawFaceSpherical_def Let_def by blast
qed





lemma drawFaceFlat_quad:
  "drawFaceFlat vs [a, b, c, d] =
     [Begin GL_QUADS,
      TexCoord2f 0 0, Vertex3f (vs ! a),
      TexCoord2f 1 0, Vertex3f (vs ! b),
      TexCoord2f 1 1, Vertex3f (vs ! c),
      TexCoord2f 0 1, Vertex3f (vs ! d),
      End]"
  by (simp add: drawFaceFlat_def texcoords_def)



lemma faces_length: "(name, idx, tc) \<in> set faces \<Longrightarrow> length idx = 4"
  by (auto simp: faces_def)

subsection \<open>Binary64: rounding\<close>

text \<open>
  Rounding moves a normal value by at most half its magnitude, keeps its sign, and commutes
  with a scaling by a power of two that stays in the normal range. Powers of two and
  integers below \<open>2^53\<close> are exact.
\<close>

lemma rne_of_int: "rne (of_int m) = m"
  by (simp add: rne_def)

lemma rne_close: "\<bar>of_int (rne x) - x\<bar> \<le> 1 / 2"
  unfolding rne_def Let_def
  by (auto simp: abs_le_iff)

lemma rne_small: "0 \<le> y \<Longrightarrow> y < 1 / 2 \<Longrightarrow> rne y = 0"
proof -
  assume a: "0 \<le> y" "y < 1 / 2"
  then have "\<lfloor>y\<rfloor> = 0" by (simp add: floor_eq_iff)
  with a show ?thesis by (simp add: rne_def)
qed

lemma floor_log2:
  assumes "2 powr of_int e \<le> x" and "x < 2 powr (of_int e + 1)"
  shows "\<lfloor>log 2 x\<rfloor> = e"
proof -
  have "(0::real) < 2 powr of_int e" by simp
  with assms(1) have pos: "0 < x" by linarith
  have 1: "of_int e \<le> log 2 x"
    using assms(1) pos by (simp add: le_log_iff)
  have 2: "log 2 x < of_int e + 1"
    using assms(2) pos by (simp add: log_less_iff)
  from 1 2 show ?thesis by (simp add: floor_eq_iff)
qed

lemma normal_binade: "normal r \<Longrightarrow> binade r = \<lfloor>log 2 \<bar>r\<bar>\<rfloor>"
proof -
  assume n: "normal r"
  then have "2 powr (- 1022) \<le> \<bar>r\<bar>" by (simp add: normal_def)
  moreover have "(0::real) < 2 powr (- 1022)" by simp
  ultimately have "0 < \<bar>r\<bar>" "2 powr (- 1022) \<le> \<bar>r\<bar>" by linarith+
  then have "- 1022 \<le> log 2 \<bar>r\<bar>" by (simp add: le_log_iff)
  then have "- 1022 \<le> \<lfloor>log 2 \<bar>r\<bar>\<rfloor>" by (simp add: le_floor_iff)
  then show ?thesis by (simp add: binade_def)
qed

lemma quantum_scale:
  assumes "normal r" and "normal (2 powr of_int m * r)"
  shows "quantum (2 powr of_int m * r) = 2 powr of_int m * quantum r"
proof -
  from assms(1) have nz: "r \<noteq> 0" by (auto simp: normal_def)
  have "log 2 \<bar>2 powr of_int m * r\<bar> = of_int m + log 2 \<bar>r\<bar>"
    using nz by (simp add: abs_mult log_mult)
  then have "\<lfloor>log 2 \<bar>2 powr of_int m * r\<bar>\<rfloor> = m + \<lfloor>log 2 \<bar>r\<bar>\<rfloor>"
    by (simp add: floor_add_int add.commute)
  then have "binade (2 powr of_int m * r) = m + binade r"
    using assms by (simp add: normal_binade)
  then show ?thesis
    by (simp add: quantum_def powr_add [symmetric] algebra_simps)
qed

lemma round_nearest_scale:
  assumes "normal r" and "normal (2 powr of_int m * r)"
  shows "round_nearest (2 powr of_int m * r) = 2 powr of_int m * round_nearest r"
proof -
  from assms(1) have nz: "r \<noteq> 0" by (auto simp: normal_def)
  have q: "quantum (2 powr of_int m * r) = 2 powr of_int m * quantum r"
    using assms by (rule quantum_scale)
  have "2 powr of_int m * r / (2 powr of_int m * quantum r) = r / quantum r"
    by simp
  with nz q show ?thesis
    by (simp add: round_nearest_def)
qed

lemma round_nearest_err:
  assumes "x \<noteq> 0"
  shows "\<bar>round_nearest x - x\<bar> \<le> quantum x / 2"
proof -
  have q: "0 < quantum x" by (simp add: quantum_def)
  have "\<bar>of_int (rne (x / quantum x)) - x / quantum x\<bar> \<le> 1 / 2" by (rule rne_close)
  then have "\<bar>of_int (rne (x / quantum x)) - x / quantum x\<bar> * quantum x \<le> 1 / 2 * quantum x"
    using q by (simp only: mult_le_cancel_right) simp
  moreover have "\<bar>of_int (rne (x / quantum x)) - x / quantum x\<bar> * quantum x =
      \<bar>of_int (rne (x / quantum x)) * quantum x - x\<bar>"
  proof -
    have "(of_int (rne (x / quantum x)) - x / quantum x) * quantum x =
          of_int (rne (x / quantum x)) * quantum x - x"
      using q by (simp add: field_simps)
    then have "\<bar>of_int (rne (x / quantum x)) * quantum x - x\<bar> =
          \<bar>of_int (rne (x / quantum x)) - x / quantum x\<bar> * \<bar>quantum x\<bar>"
      by (metis abs_mult)
    with q show ?thesis by simp
  qed
  ultimately show ?thesis using assms by (simp add: round_nearest_def)
qed

lemma quantum_le:
  assumes "normal r"
  shows "quantum r \<le> \<bar>r\<bar>"
proof -
  from assms have pos: "0 < \<bar>r\<bar>" by (auto simp: normal_def)
  have "of_int \<lfloor>log 2 \<bar>r\<bar>\<rfloor> \<le> log 2 \<bar>r\<bar>" by simp
  then have "2 powr of_int \<lfloor>log 2 \<bar>r\<bar>\<rfloor> \<le> \<bar>r\<bar>"
    using pos by (simp add: powr_le_iff del: of_int_floor_le)
  moreover have "quantum r \<le> 2 powr of_int \<lfloor>log 2 \<bar>r\<bar>\<rfloor>"
    using assms by (simp add: quantum_def normal_binade)
  ultimately show ?thesis by linarith
qed

lemma round_nearest_normal:
  assumes "normal r"
  shows "\<bar>round_nearest r - r\<bar> \<le> \<bar>r\<bar> / 2"
proof -
  from assms have "r \<noteq> 0" by (auto simp: normal_def)
  from round_nearest_err [OF this] quantum_le [OF assms] show ?thesis by linarith
qed

lemma to_double_normal:
  assumes "normal r"
  shows "to_double s r = Fin (round_nearest r)"
    and "0 < r \<Longrightarrow> 0 < round_nearest r"
    and "r < 0 \<Longrightarrow> round_nearest r < 0"
proof -
  have e: "\<bar>round_nearest r - r\<bar> \<le> \<bar>r\<bar> / 2" using assms by (rule round_nearest_normal)
  from assms have b: "0 < \<bar>r\<bar>" "\<bar>r\<bar> < 2 powr 1023" by (auto simp: normal_def)
  show p: "0 < r \<Longrightarrow> 0 < round_nearest r" using e by linarith
  show n: "r < 0 \<Longrightarrow> round_nearest r < 0" using e by linarith
  have nz: "round_nearest r \<noteq> 0" using e b by linarith
  have "(2::real) powr 1024 = 2 * 2 powr 1023"
    using powr_add [of "2::real" 1 1023] by simp
  with e b have "\<bar>round_nearest r\<bar> < 2 powr 1024" by linarith
  then have "\<not> 2 powr 1024 \<le> round_nearest r" "\<not> round_nearest r \<le> - (2 powr 1024)"
    by linarith+
  with nz show "to_double s r = Fin (round_nearest r)"
    by (simp add: to_double_def Let_def)
qed

lemma to_double_zero: "to_double False 0 = Fin 0"
  by (simp add: to_double_def round_nearest_def)

lemma fmul_zero: "is_zero a \<Longrightarrow> fmul a a = Fin 0"
  by (cases a) (simp_all add: fmul_def to_double_zero)

lemma unit_vector_origin:
  assumes "is_zero a" "is_zero b" "is_zero c"
  shows "unit_vector (a, b, c) = Inl ZeroDivisionError"
  using assms
  by (simp add: unit_vector_def fmul_zero fadd_def to_double_zero fdiv_def)

lemma cubeToSphereUV_double_origin:
  assumes "is_zero a" "is_zero b" "is_zero c"
  shows "cubeToSphereUV_double (a, b, c) = Inl ZeroDivisionError"
  by (simp add: cubeToSphereUV_double_def unit_vector_origin [OF assms])

lemma round_nearest_exact:
  assumes "x / quantum x = of_int m"
  shows "round_nearest x = x"
proof (cases "x = 0")
  case True
  then show ?thesis by (simp add: round_nearest_def)
next
  case False
  have q: "quantum x \<noteq> 0" by (simp add: quantum_def)
  from assms have "rne (x / quantum x) = m" by (simp add: rne_of_int)
  with assms q False show ?thesis
    by (simp add: round_nearest_def field_simps)
qed

lemma normal_powr:
  assumes "- 1022 \<le> e" and "e < 1023"
  shows "normal (2 powr of_int e)"
proof -
  have "(- 1022::real) \<le> of_int e" using assms(1) by simp
  then have 1: "(2::real) powr (- 1022) \<le> 2 powr of_int e"
    by (rule powr_mono) simp
  have "(of_int e::real) < 1023" using assms(2) by simp
  then have 2: "(2::real) powr of_int e < 2 powr 1023"
    by (rule powr_less_mono) simp
  have a: "\<bar>(2::real) powr of_int e\<bar> = 2 powr of_int e" by simp
  show ?thesis unfolding normal_def a using 1 2 by blast
qed

lemma round_nearest_powr:
  assumes "- 1022 \<le> e" and "e < 1023"
  shows "round_nearest (2 powr of_int e) = 2 powr of_int e"
proof -
  have n: "normal (2 powr of_int e)" using assms by (rule normal_powr)
  have "\<lfloor>log 2 \<bar>2 powr of_int e\<bar>\<rfloor> = e" by simp
  with n have "binade (2 powr of_int e) = e" by (simp add: normal_binade)
  then have q: "quantum (2 powr of_int e) = 2 powr (of_int e - 52)"
    by (simp add: quantum_def)
  have "2 powr of_int e / quantum (2 powr of_int e) = of_int 4503599627370496"
    unfolding q by (simp add: powr_diff)
  then show ?thesis by (rule round_nearest_exact)
qed

lemma to_double_powr:
  assumes "- 1022 \<le> e" and "e < 1023"
  shows "to_double s (2 powr of_int e) = Fin (2 powr of_int e)"
  using to_double_normal(1) [OF normal_powr [OF assms]] round_nearest_powr [OF assms]
  by simp

lemma to_double_one: "to_double s 1 = Fin 1"
  using to_double_powr [of 0 s] by simp

lemma to_double_half: "to_double s (1 / 2) = Fin (1 / 2)"
  using to_double_powr [of "- 1" s] by (simp add: powr_minus_divide)

lemma round_nearest_tiny: "round_nearest (2 powr (- 1200)) = 0"
proof -
  have "\<lfloor>log 2 \<bar>2 powr (- 1200)\<bar>\<rfloor> = - 1200"
    using floor_of_int [of "- 1200", where ?'a = real] by (simp del: powr_numeral)
  then have "binade (2 powr (- 1200)) = - 1022" by (simp add: binade_def del: powr_numeral)
  then have q: "quantum (2 powr (- 1200)) = 2 powr (- 1074)" by (simp add: quantum_def)
  have r: "2 powr (- 1200) / quantum (2 powr (- 1200)) = 2 powr (- 126)"
    unfolding q using powr_diff [of "2::real" "- 1200" "- 1074"] by simp
  have "(- 126::real) < - 1" by simp
  then have "(2::real) powr (- 126) < 2 powr (- 1)" by (rule powr_less_mono) simp
  then have "(2::real) powr (- 126) < 1 / 2" by (simp add: powr_minus_divide)
  moreover have "(0::real) \<le> 2 powr (- 126)" by simp
  ultimately have "rne (2 powr (- 126)) = 0" using rne_small by blast
  then show ?thesis unfolding round_nearest_def r by simp
qed

subsection \<open>Binary64: the normalisation under scaling by a power of two\<close>

lemma round_nearest_0: "round_nearest 0 = 0"
  by (simp add: round_nearest_def)

lemma to_double_zn:
  "zero_or_normal r \<Longrightarrow> to_double False r = Fin (round_nearest r)"
  by (auto simp: zero_or_normal_def to_double_zero round_nearest_0 to_double_normal(1))

lemma round_nearest_nonneg:
  "zero_or_normal r \<Longrightarrow> 0 \<le> r \<Longrightarrow> 0 \<le> round_nearest r"
  using to_double_normal(2) [of r]
  by (cases "r = 0") (auto simp: zero_or_normal_def round_nearest_0 less_eq_real_def)

lemma zn_scale:
  assumes "zero_or_normal r" and "zero_or_normal (2 powr of_int m * r)"
  shows "round_nearest (2 powr of_int m * r) = 2 powr of_int m * round_nearest r"
proof (cases "r = 0")
  case True
  then show ?thesis by (simp add: round_nearest_0)
next
  case False
  with assms have "normal r" "normal (2 powr of_int m * r)"
    by (auto simp: zero_or_normal_def)
  then show ?thesis by (rule round_nearest_scale)
qed

lemma fmul_square:
  "zero_or_normal (x * x) \<Longrightarrow> fmul (Fin x) (Fin x) = Fin (round_nearest (x * x))"
  by (simp add: fmul_def to_double_zn)

lemma fadd_nonneg:
  assumes "zero_or_normal (a + b)" and "0 \<le> a" and "0 \<le> b"
  shows "fadd (Fin a) (Fin b) = Fin (round_nearest (a + b))"
proof (cases "a + b = 0")
  case True
  then show ?thesis by (simp add: fadd_def round_nearest_0)
next
  case False
  with assms(1) have "normal (a + b)" by (simp add: zero_or_normal_def)
  from to_double_normal(1) [OF this] False show ?thesis by (simp add: fadd_def)
qed

lemma fdiv_pos:
  assumes "zero_or_normal (x / l)" and "0 < l"
  shows "fdiv (Fin x) (Fin l) = Inr (Fin (round_nearest (x / l)))"
proof (cases "x / l = 0")
  case True
  with assms(2) have "x = 0" by simp
  with assms(2) show ?thesis
    by (simp add: fdiv_def to_double_zero round_nearest_0)
next
  case False
  with assms(1) have "normal (x / l)" by (simp add: zero_or_normal_def)
  from to_double_normal(1) [OF this] assms(2) show ?thesis by (simp add: fdiv_def)
qed

lemma unit_vector_in_range:
  assumes "in_normal_range x y z"
  shows "unit_vector (Fin x, Fin y, Fin z) =
           Inr (Fin (round_nearest (x / round_nearest (sqrt (sq_sum x y z)))),
                Fin (round_nearest (y / round_nearest (sqrt (sq_sum x y z)))),
                Fin (round_nearest (z / round_nearest (sqrt (sq_sum x y z)))))"
proof -
  let ?xx = "round_nearest (x * x)" and ?yy = "round_nearest (y * y)"
  let ?zz = "round_nearest (z * z)"
  let ?s1 = "round_nearest (?xx + ?yy)"
  let ?l = "round_nearest (sqrt (sq_sum x y z))"
  from assms have r:
    "zero_or_normal (x * x)" "zero_or_normal (y * y)" "zero_or_normal (z * z)"
    "zero_or_normal (?xx + ?yy)" "zero_or_normal (?s1 + ?zz)"
    "normal (sqrt (sq_sum x y z))"
    "zero_or_normal (x / ?l)" "zero_or_normal (y / ?l)" "zero_or_normal (z / ?l)"
    by (simp_all add: in_normal_range_def)
  have nn: "0 \<le> ?xx" "0 \<le> ?yy" "0 \<le> ?zz"
    using r(1-3) by (simp_all add: round_nearest_nonneg)
  then have nn1: "0 \<le> ?s1" using r(4) by (simp add: round_nearest_nonneg)
  have sum: "fadd (fadd (fmul (Fin x) (Fin x)) (fmul (Fin y) (Fin y))) (fmul (Fin z) (Fin z))
             = Fin (sq_sum x y z)"
    using r(1-5) nn nn1 by (simp add: fmul_square fadd_nonneg sq_sum_def)
  have s2: "0 \<le> sq_sum x y z"
    unfolding sq_sum_def using r(5) nn nn1 by (simp add: round_nearest_nonneg)
  have "0 < sqrt (sq_sum x y z)"
    using r(6) s2 by (auto simp: normal_def less_eq_real_def)
  then have lpos: "0 < ?l" using r(6) by (simp add: to_double_normal(2))
  have root: "math_sqrt (Fin (sq_sum x y z)) = Inr (Fin ?l)"
    using s2 r(6) by (simp add: to_double_normal(1))
  show ?thesis
    unfolding unit_vector_def prod.case sum root
    using r(7-9) lpos by (simp add: fdiv_pos)
qed

lemma sq_sum_scale:
  assumes "in_normal_range x y z"
    and "in_normal_range (2 powr of_int n * x) (2 powr of_int n * y) (2 powr of_int n * z)"
  shows "sq_sum (2 powr of_int n * x) (2 powr of_int n * y) (2 powr of_int n * z) =
           2 powr of_int n * 2 powr of_int n * sq_sum x y z"
proof -
  define k :: real where "k = 2 powr of_int n"
  define k2 :: real where "k2 = 2 powr of_int (2 * n)"
  have kk: "k * k = k2"
    by (simp add: k_def k2_def powr_add [symmetric])
  have k2: "k * a * (k * b) = k2 * (a * b)" for a b
    using kk by (simp add: algebra_simps)
  have zs: "round_nearest (k2 * r) = k2 * round_nearest r"
    if "zero_or_normal r" "zero_or_normal (k2 * r)" for r
    using zn_scale [of r "2 * n"] that unfolding k2_def by blast
  let ?xx = "round_nearest (x * x)" and ?yy = "round_nearest (y * y)"
  let ?zz = "round_nearest (z * z)"
  let ?s1 = "round_nearest (?xx + ?yy)"
  from assms(1) have r:
    "zero_or_normal (x * x)" "zero_or_normal (y * y)" "zero_or_normal (z * z)"
    "zero_or_normal (?xx + ?yy)" "zero_or_normal (?s1 + ?zz)"
    by (simp_all add: in_normal_range_def)
  from assms(2) have a2: "in_normal_range (k * x) (k * y) (k * z)"
    by (simp add: k_def)
  then have r1:
    "zero_or_normal (k2 * (x * x))" "zero_or_normal (k2 * (y * y))"
    "zero_or_normal (k2 * (z * z))"
    by (simp_all add: in_normal_range_def k2)
  have sq: "round_nearest (k2 * (x * x)) = k2 * ?xx"
    "round_nearest (k2 * (y * y)) = k2 * ?yy"
    "round_nearest (k2 * (z * z)) = k2 * ?zz"
    using r(1-3) r1 by (simp_all add: zs)
  from a2 have "zero_or_normal (k2 * ?xx + k2 * ?yy)"
    by (simp add: in_normal_range_def k2 sq)
  then have r2: "zero_or_normal (k2 * (?xx + ?yy))" by (simp add: algebra_simps)
  have s1: "round_nearest (k2 * ?xx + k2 * ?yy) = k2 * ?s1"
    using zs [OF r(4) r2] by (simp add: algebra_simps)
  from a2 have "zero_or_normal (k2 * ?s1 + k2 * ?zz)"
    by (simp add: in_normal_range_def k2 sq s1)
  then have r3: "zero_or_normal (k2 * (?s1 + ?zz))" by (simp add: algebra_simps)
  have "round_nearest (k2 * ?s1 + k2 * ?zz) = k2 * round_nearest (?s1 + ?zz)"
    using zs [OF r(5) r3] by (simp add: algebra_simps)
  then have "sq_sum (k * x) (k * y) (k * z) = k2 * sq_sum x y z"
    by (simp add: sq_sum_def k2 sq s1)
  then show ?thesis
    unfolding kk [symmetric] by (simp add: k_def)
qed

lemma length_scale:
  assumes "in_normal_range x y z"
    and "in_normal_range (2 powr of_int n * x) (2 powr of_int n * y) (2 powr of_int n * z)"
  shows "round_nearest (sqrt (sq_sum (2 powr of_int n * x) (2 powr of_int n * y)
                                      (2 powr of_int n * z))) =
           2 powr of_int n * round_nearest (sqrt (sq_sum x y z))"
proof -
  define k :: real where "k = 2 powr of_int n"
  have kpos: "0 < k" by (simp add: k_def)
  have root: "sqrt (k * k * s) = k * sqrt s" for s
    using kpos by (simp add: real_sqrt_mult)
  have s: "sq_sum (k * x) (k * y) (k * z) = k * k * sq_sum x y z"
    using sq_sum_scale [OF assms] by (simp add: k_def)
  from assms(1) have n1: "normal (sqrt (sq_sum x y z))"
    by (simp add: in_normal_range_def)
  from assms(2) have "in_normal_range (k * x) (k * y) (k * z)"
    by (simp add: k_def)
  then have "normal (sqrt (sq_sum (k * x) (k * y) (k * z)))"
    by (simp add: in_normal_range_def)
  then have n2: "normal (k * sqrt (sq_sum x y z))"
    by (simp only: s root)
  have "round_nearest (k * sqrt (sq_sum x y z)) = k * round_nearest (sqrt (sq_sum x y z))"
    using round_nearest_scale [of "sqrt (sq_sum x y z)" n] n1 n2 unfolding k_def by blast
  then have "round_nearest (sqrt (sq_sum (k * x) (k * y) (k * z))) =
      k * round_nearest (sqrt (sq_sum x y z))"
    by (simp only: s root)
  then show ?thesis by (simp add: k_def)
qed

lemma unit_vector_scale:
  assumes "in_normal_range x y z"
    and "in_normal_range (2 powr of_int n * x) (2 powr of_int n * y) (2 powr of_int n * z)"
  shows "unit_vector (Fin (2 powr of_int n * x), Fin (2 powr of_int n * y),
                      Fin (2 powr of_int n * z)) =
         unit_vector (Fin x, Fin y, Fin z)"
proof -
  have q: "2 powr of_int n * a / (2 powr of_int n * l) = a / l" for a l :: real
    by simp
  show ?thesis
    unfolding unit_vector_in_range [OF assms(1)] unit_vector_in_range [OF assms(2)]
      length_scale [OF assms] q ..
qed

lemma cubeToSphereUV_double_scale:
  assumes "in_normal_range x y z"
    and "in_normal_range (2 powr of_int n * x) (2 powr of_int n * y) (2 powr of_int n * z)"
  shows "cubeToSphereUV_double (Fin (2 powr of_int n * x), Fin (2 powr of_int n * y),
                                Fin (2 powr of_int n * z)) =
         cubeToSphereUV_double (Fin x, Fin y, Fin z)"
  unfolding cubeToSphereUV_double_def unit_vector_scale [OF assms] ..

lemma normal_moderate:
  assumes "1 / 2 \<le> \<bar>r\<bar>" and "\<bar>r\<bar> \<le> 2 ^ 60"
  shows "normal r"
proof -
  have "(- 1022::real) \<le> - 1" by simp
  then have "(2::real) powr (- 1022) \<le> 2 powr (- 1)" by (rule powr_mono) simp
  then have lo: "(2::real) powr (- 1022) \<le> 1 / 2" by (simp add: powr_minus_divide)
  have "(60::real) < 1023" by simp
  then have "(2::real) powr 60 < 2 powr 1023" by (rule powr_less_mono) simp
  moreover have "(2::real) powr 60 = 2 ^ 60"
    using powr_realpow [of "2::real" 60] by simp
  ultimately have hi: "(2::real) ^ 60 < 2 powr 1023" by simp
  from assms lo hi have "2 powr (- 1022) \<le> \<bar>r\<bar>" "\<bar>r\<bar> < 2 powr 1023"
    by linarith+
  then show ?thesis unfolding normal_def by blast
qed

lemma round_nearest_int:
  assumes "0 < N" and "N < 2 ^ 53"
  shows "round_nearest (of_int N) = of_int N"
proof -
  let ?x = "of_int N :: real"
  define e where "e = \<lfloor>log 2 ?x\<rfloor>"
  have x1: "1 \<le> ?x" using assms(1) by simp
  have xu: "?x < 2 ^ 53" using assms(2) by (metis of_int_less_iff of_int_numeral of_int_power)
  have n: "normal ?x"
    using x1 xu by (intro normal_moderate) simp_all
  have "0 \<le> log 2 ?x" using x1 by simp
  then have e0: "0 \<le> e" by (simp add: e_def)
  have "log 2 ?x < 53"
    using xu x1 powr_realpow [of "2::real" 53] by (simp add: log_less_iff)
  then have e52: "e \<le> 52" unfolding e_def by (simp add: floor_less_iff [symmetric] less_floor_iff)
  have b: "binade ?x = e"
    using n x1 by (simp add: normal_binade e_def)
  have q: "quantum ?x = 2 powr (of_int e - 52)"
    by (simp add: quantum_def b)
  have "2 powr (52 - of_int e) = (2::real) ^ nat (52 - e)"
    using e52 powr_realpow [of "2::real" "nat (52 - e)"] by simp
  moreover have "?x / quantum ?x = ?x * 2 powr (52 - of_int e)"
    unfolding q by (simp add: powr_diff field_simps)
  ultimately have "?x / quantum ?x = of_int (N * 2 ^ nat (52 - e))"
    by simp
  then show ?thesis by (rule round_nearest_exact)
qed

lemma round_nearest_numeral:
  "(numeral w :: int) < 2 ^ 53 \<Longrightarrow> round_nearest (numeral w) = numeral w"
  using round_nearest_int [of "numeral w"] by simp

lemma normal_numeral: "(numeral w :: real) \<le> 2 ^ 60 \<Longrightarrow> normal (numeral w)"
  by (rule normal_moderate) simp_all

lemma in_range_3_4_0: "in_normal_range 3 4 0"
  by (simp add: in_normal_range_def sq_sum_def zero_or_normal_def round_nearest_0
      round_nearest_numeral normal_numeral normal_moderate)

lemma in_range_scaled: "in_normal_range (2 powr of_int 10 * 3) (2 powr of_int 10 * 4) (2 powr of_int 10 * 0)"
proof -
  have s: "sqrt 26214400 = 5120"
    using real_sqrt_abs2 [of 5120] by simp
  show ?thesis
    by (simp add: in_normal_range_def sq_sum_def zero_or_normal_def round_nearest_0
      round_nearest_numeral normal_numeral normal_moderate s)
qed

lemma math_pi_pos: "\<exists>r. math_pi = Fin r \<and> 0 < r \<and> normal (2 * r)"
proof -
  have p: "2 \<le> pi" "pi < 4" using pi_ge_two pi_less_4 by simp_all
  then have n: "normal pi" by (intro normal_moderate) simp_all
  have e: "\<bar>round_nearest pi - pi\<bar> \<le> \<bar>pi\<bar> / 2" using n by (rule round_nearest_normal)
  then have "1 \<le> round_nearest pi" "round_nearest pi \<le> 6" using p by linarith+
  then have "0 < round_nearest pi" "normal (2 * round_nearest pi)"
    by (simp, intro normal_moderate, simp_all)
  with to_double_normal(1) [OF n] show ?thesis by (simp add: math_pi_def)
qed

lemma fdiv_zero_pos: "0 < d \<Longrightarrow> fdiv (Fin 0) (Fin d) = Inr (Fin 0)"
  by (simp add: fdiv_def to_double_zero)

lemma uv_of_unit_x:
  "cubeToSphereUV_double (Fin 1, Fin 0, Fin 0) = Inr (Fin (1 / 2), Fin (1 / 2))"
proof -
  obtain r where r: "math_pi = Fin r" "0 < r" "normal (2 * r)"
    using math_pi_pos by blast
  have two_pi: "fmul (Fin 2) (Fin r) = Fin (round_nearest (2 * r))" "0 < round_nearest (2 * r)"
    using r(2) to_double_normal(1,2) [OF r(3)] by (simp_all add: fmul_def)
  have uv: "unit_vector (Fin 1, Fin 0, Fin 0) = Inr (Fin 1, Fin 0, Fin 0)"
    by (simp add: unit_vector_def fmul_def fadd_def fdiv_def to_double_zero to_double_one)
  have at: "math_atan2 (Fin 0) (Fin 1) = Fin 0"
    by (simp add: math_atan2_def copysign_def)
  show ?thesis
    unfolding cubeToSphereUV_double_def uv
    using r(2) two_pi(2)
    by (simp add: at two_pi(1) r(1) fdiv_zero_pos fadd_def fsub_def to_double_half
        to_double_zero)
qed

lemma tiny_x:
  "cubeToSphereUV_double (Fin (2 powr (- 600)), Fin 0, Fin 0) = Inl ZeroDivisionError"
proof -
  have "(2::real) powr (- 600) * 2 powr (- 600) = 2 powr (- 1200)"
    by (simp add: powr_add [symmetric] del: powr_numeral)
  then have "fmul (Fin (2 powr (- 600))) (Fin (2 powr (- 600))) = Fin 0"
    by (simp add: fmul_def to_double_def round_nearest_tiny del: powr_numeral)
  then have "unit_vector (Fin (2 powr (- 600)), Fin 0, Fin 0) = Inl ZeroDivisionError"
    by (simp add: unit_vector_def fmul_def fadd_def fdiv_def to_double_zero)
  then show ?thesis by (simp add: cubeToSphereUV_double_def)
qed

lemma scaled_tiny:
  "fmul (Fin (2 powr 600)) (Fin (2 powr (- 600))) = Fin 1 \<and>
   fmul (Fin (2 powr 600)) (Fin 0) = Fin 0"
proof -
  have "(2::real) powr 600 * 2 powr (- 600) = 1"
    using powr_add [of "2::real" 600 "- 600"] by simp
  moreover have "\<not> (2::real) powr 600 < 0" "\<not> (2::real) powr (- 600) < 0"
    by (simp_all add: not_less del: powr_numeral)
  ultimately show ?thesis
    by (simp add: fmul_def to_double_one to_double_zero del: powr_numeral)
qed

lemma strip_column_origin:
  "strip_column sub (0, 0, 0) (0, 0, 0) (0, 0, 0) (0, 0, 0) t0 t1 j = Inl ZeroDivisionError"
  by (simp add: strip_column_def cubeToSphereUV_def Let_def)

lemma strip_row_origin:
  "strip_row sub (0, 0, 0) (0, 0, 0) (0, 0, 0) (0, 0, 0) i = Inl ZeroDivisionError"
proof -
  have "[0..<sub + 1] = 0 # [1..<sub + 1]" by (simp add: upt_conv_Cons)
  then show ?thesis
    by (simp add: strip_row_def Let_def strip_column_origin del: upt_Suc)
qed

lemma drawFaceSpherical_origin:
  "drawFaceSpherical (Suc n) [(0, 0, 0)] [0, 0, 0, 0] = Inl ZeroDivisionError"
proof -
  have "[0..<Suc n] = 0 # [1..<Suc n]" by (simp add: upt_conv_Cons)
  then show ?thesis
    by (simp add: drawFaceSpherical_def Let_def strip_row_origin del: upt_Suc)
qed

section \<open>The claims about geometry and drawing\<close>

text \<open>
  Claim C2, as stated: for the point \<open>(0, 0, 0)\<close> \<^verbatim>\<open>cubeToSphereUV\<close> does not raise; the
  sample is skipped, reusing the previous UV or returning \<open>(0.5, 0.5)\<close>. It fails: the call
  raises \<^verbatim>\<open>ZeroDivisionError\<close>, and a face painted from a quad collapsed to the origin
  passes the exception on to its caller.
\<close>

theorem C2_origin_raises:
  "cubeToSphereUV (0, 0, 0) = Inl ZeroDivisionError \<and>
   drawFaceSpherical 1 [(0, 0, 0)] [0, 0, 0, 0] = Inl ZeroDivisionError"
  by (simp add: cubeToSphereUV_def drawFaceSpherical_def strip_row_def strip_column_def Let_def)

text \<open>
  Claim C2, amended: for the input point \<open>(0, 0, 0)\<close>, each coordinate a zero of either
  sign, \<^verbatim>\<open>cubeToSphereUV\<close> raises \<^verbatim>\<open>ZeroDivisionError\<close>: the length is zero and line 144
  divides by it unguarded. No previous UV is reused and \<open>(0.5, 0.5)\<close> is not returned.
  The exception is passed on: the body of the inner loop of \<^verbatim>\<open>drawFaceSpherical\<close> raises
  it for a quad whose corners are all the origin, and so does the whole call for every
  tessellation factor of at least one.
\<close>

theorem C2_origin_raises_zero_division:
  assumes "is_zero a" and "is_zero b" and "is_zero c"
  shows "cubeToSphereUV_double (a, b, c) = Inl ZeroDivisionError \<and>
         cubeToSphereUV (0, 0, 0) = Inl ZeroDivisionError \<and>
         strip_column sub (0, 0, 0) (0, 0, 0) (0, 0, 0) (0, 0, 0) t0 t1 j
           = Inl ZeroDivisionError \<and>
         drawFaceSpherical (Suc n) [(0, 0, 0)] [0, 0, 0, 0] = Inl ZeroDivisionError"
  using cubeToSphereUV_double_origin [OF assms] cubeToSphereUV_origin
    strip_column_origin drawFaceSpherical_origin by blast

theorem C2_signed_zeros_witness:
  "is_zero NegZero \<and> is_zero (Fin 0) \<and>
   cubeToSphereUV_double (NegZero, Fin 0, NegZero) = Inl ZeroDivisionError \<and>
   drawFaceSpherical (Suc 19) [(0, 0, 0)] [0, 0, 0, 0] = Inl ZeroDivisionError"
  using C2_origin_raises_zero_division [of NegZero "Fin 0" NegZero, where n = 19] by simp

text \<open>
  Claim C8, as stated: for every point \<open>p\<close> other than the origin and every real
  \<open>k > 0\<close>, \<^verbatim>\<open>cubeToSphereUV\<close> gives the same result for \<open>k \<cdot> p\<close> and for \<open>p\<close>. In exact
  arithmetic it does (\<open>cubeToSphereUV_scale\<close>); in the binary64 arithmetic of the code
  it fails. For \<open>p = (2^-600, 0, 0)\<close> the square \<open>2^-1200\<close> underflows to zero, the
  length is zero and the call raises \<^verbatim>\<open>ZeroDivisionError\<close>, while for \<open>k = 2^600\<close> the
  point \<open>k \<cdot> p\<close> is \<open>(1, 0, 0)\<close> and the call returns \<open>(0.5, 0.5)\<close>.
\<close>

theorem C8_scaling_out_of_underflow:
  "cubeToSphereUV_double (Fin (2 powr (- 600)), Fin 0, Fin 0) = Inl ZeroDivisionError \<and>
   cubeToSphereUV_double
     (fmul (Fin (2 powr 600)) (Fin (2 powr (- 600))),
      fmul (Fin (2 powr 600)) (Fin 0),
      fmul (Fin (2 powr 600)) (Fin 0)) = Inr (Fin (1 / 2), Fin (1 / 2))"
  using tiny_x uv_of_unit_x scaled_tiny by (simp del: powr_numeral)

text \<open>
  Claim C8, amended: for every power of two \<open>k = 2^n\<close> (\<open>n\<close> an integer) and every point
  \<open>p\<close> with finite coordinates (a zero coordinate being the positive zero), if no
  intermediate result of the normalisation (lines 143-144) of \<open>p\<close> or of \<open>k \<cdot> p\<close>
  underflows, is subnormal or overflows, then the normalisation of \<open>p\<close> returns a unit
  vector and \<^verbatim>\<open>cubeToSphereUV\<close> gives exactly the same result for \<open>k \<cdot> p\<close> and for \<open>p\<close>.
\<close>

theorem C8_cubeToSphereUV_power_of_two_scaling:
  assumes "in_normal_range x y z"
    and "in_normal_range (2 powr of_int n * x) (2 powr of_int n * y) (2 powr of_int n * z)"
  shows "cubeToSphereUV_double (Fin (2 powr of_int n * x), Fin (2 powr of_int n * y),
                                Fin (2 powr of_int n * z)) =
         cubeToSphereUV_double (Fin x, Fin y, Fin z) \<and>
         (\<exists>nx ny nz. unit_vector (Fin x, Fin y, Fin z) = Inr (nx, ny, nz))"
  using cubeToSphereUV_double_scale [OF assms] unit_vector_in_range [OF assms(1)] by simp

theorem C8_scale_3_4_0_by_1024_witness:
  "in_normal_range 3 4 0 \<and>
   in_normal_range (2 powr of_int 10 * 3) (2 powr of_int 10 * 4) (2 powr of_int 10 * 0) \<and>
   cubeToSphereUV_double (Fin 3072, Fin 4096, Fin 0) =
     cubeToSphereUV_double (Fin 3, Fin 4, Fin 0)"
  using C8_cubeToSphereUV_power_of_two_scaling [OF in_range_3_4_0 in_range_scaled]
    in_range_3_4_0 in_range_scaled
  by simp



text \<open>
  Claim C7: for every tessellation factor \<open>sub \<ge> 1\<close>, painting one face in spherical mode
  emits exactly \<open>sub\<close> triangle strips, each running over \<open>sub + 1\<close> columns with two
  vertices per column; for \<open>sub = 2\<close>, two strips of three vertex pairs, six vertices each.

  For each face of the table the call returns, and the blocks it draws are \<open>sub\<close> triangle
  strips; strip \<open>i\<close> consists of the pairs of grid points at rows \<open>i\<close> and \<open>i + 1\<close> for
  the columns \<open>j = 0, \<dots>, sub\<close>, hence of \<open>2 (sub + 1)\<close> vertices.
\<close>

theorem C7_spherical_face_strips:
  assumes "(name, idx, tc) \<in> set faces" and "1 \<le> sub"
  shows "\<exists>cmds. drawFaceSpherical sub vertices idx = Inr cmds \<and>
     length (prims None cmds) = sub \<and>
     map fst (prims None cmds) = replicate sub GL_TRIANGLE_STRIP \<and>
     map (\<lambda>strip. length (snd strip)) (prims None cmds) = replicate sub (2 * (sub + 1)) \<and>
     map snd (prims None cmds) =
       map (\<lambda>i. concat (map (\<lambda>j.
               [face_point idx (real j / real sub) (real i / real sub),
                face_point idx (real j / real sub) ((real i + 1) / real sub)]) [0..<sub + 1]))
           [0..<sub]"
proof -
  have len: "length (concat (map (\<lambda>j. [p j, q j]) js)) = 2 * length js"
    for p q :: "nat \<Rightarrow> vec3" and js
    by (induction js) simp_all
  from drawFaceSpherical_face [OF assms(1), of sub] obtain cmds where
    c: "drawFaceSpherical sub vertices idx = Inr cmds" and
    p: "prims None cmds =
       map (\<lambda>i. (GL_TRIANGLE_STRIP, concat (map (\<lambda>j.
        [grid_point (vertices ! (idx ! 0)) (vertices ! (idx ! 1))
                    (vertices ! (idx ! 2)) (vertices ! (idx ! 3))
                    (real j / real sub) (real i / real sub),
         grid_point (vertices ! (idx ! 0)) (vertices ! (idx ! 1))
                    (vertices ! (idx ! 2)) (vertices ! (idx ! 3))
                    (real j / real sub) ((real i + 1) / real sub)]) [0..<sub + 1])))
        [0..<sub]"
    by blast
  have 0: "length (prims None cmds) = sub"
    by (simp add: p)
  have 1: "map fst (prims None cmds) = replicate sub GL_TRIANGLE_STRIP"
    by (simp add: p comp_def map_replicate_const)
  have 2: "map (\<lambda>strip. length (snd strip)) (prims None cmds) = replicate sub (2 * (sub + 1))"
    by (simp add: p comp_def len map_replicate_const)
  have 3: "map snd (prims None cmds) =
       map (\<lambda>i. concat (map (\<lambda>j.
               [face_point idx (real j / real sub) (real i / real sub),
                face_point idx (real j / real sub) ((real i + 1) / real sub)]) [0..<sub + 1]))
           [0..<sub]"
    unfolding p face_point_def by (simp add: comp_def)
  from c 0 1 2 3 show ?thesis by blast
qed

theorem C7_two_strips_of_six_witness:
  "(''ft'', [0, 1, 2, 3], [(0, 0), (1, 0), (1, 1), (0, 1)]) \<in> set faces \<and> (1::nat) \<le> 2 \<and>
   (\<exists>cmds. drawFaceSpherical 2 vertices [0, 1, 2, 3] = Inr cmds \<and>
     length (prims None cmds) = 2 \<and>
     map fst (prims None cmds) = [GL_TRIANGLE_STRIP, GL_TRIANGLE_STRIP] \<and>
     map (\<lambda>strip. length (snd strip)) (prims None cmds) = [6, 6])"
proof -
  have f: "(''ft'', [0, 1, 2, 3], [(0, 0), (1, 0), (1, 1), (0, 1)]) \<in> set faces"
    by (simp add: faces_def)
  have s: "(1::nat) \<le> 2" by simp
  have r: "replicate 2 a = [a, a]" for a :: 'a
    by (simp add: numeral_2_eq_2)
  from C7_spherical_face_strips [OF f s] obtain cmds where
    "drawFaceSpherical 2 vertices [0, 1, 2, 3] = Inr cmds"
    "length (prims None cmds) = 2"
    "map fst (prims None cmds) = replicate 2 GL_TRIANGLE_STRIP"
    "map (\<lambda>strip. length (snd strip)) (prims None cmds) = replicate 2 (2 * (2 + 1))"
    by blast
  with f s show ?thesis
    by (simp add: r)
qed

text \<open>
  Claim C9: for every face, the flat painter gives the quad's four vertices, in order, the
  texture coordinates \<open>(0,0)\<close>, \<open>(1,0)\<close>, \<open>(1,1)\<close>, \<open>(0,1)\<close>: the whole texture on the whole
  face. The face is drawn as one quad of its four table vertices.
\<close>

theorem C9_flat_face_uvs:
  assumes "(name, idx, tc) \<in> set faces"
  shows "textured_vertices cur (drawFaceFlat vertices idx) =
           zip [(0, 0), (1, 0), (1, 1), (0, 1)] (map (\<lambda>vi. vertices ! vi) idx) \<and>
         length idx = 4 \<and>
         prims None (drawFaceFlat vertices idx) = [(GL_QUADS, map (\<lambda>vi. vertices ! vi) idx)]"
proof -
  from assms have "length idx = 4" by (rule faces_length)
  then obtain a b c d where idx: "idx = [a, b, c, d]"
    by (auto simp: length_Suc_conv numeral_eq_Suc)
  show ?thesis
    unfolding idx drawFaceFlat_quad by simp
qed

theorem C9_flat_up_face_witness:
  "(''up'', [3, 2, 6, 7], [(0, 0), (1, 0), (1, 1), (0, 1)]) \<in> set faces \<and>
   textured_vertices (0, 0) (drawFaceFlat vertices [3, 2, 6, 7]) =
     [((0, 0), (- 1, 1, 1)), ((1, 0), (1, 1, 1)), ((1, 1), (1, 1, - 1)), ((0, 1), (- 1, 1, - 1))]"
proof -
  have f: "(''up'', [3, 2, 6, 7], [(0, 0), (1, 0), (1, 1), (0, 1)]) \<in> set faces"
    by (simp add: faces_def)
  from C9_flat_face_uvs [OF f, of "(0, 0)"] f show ?thesis
    by (simp add: vertices_def)
qed




end
